theory Spec2Isabelle
  imports Complex_Main "HOL-Library.Sublist"
begin

section \<open>Python text: whitespace, \<open>str.strip\<close> and \<open>str.split(None, maxsplit)\<close>\<close>

text \<open>
  A Python \<open>str\<close> is a sequence of code points. It is modelled as a \<open>string\<close>, each
  \<open>char\<close> standing for one code point below 256. \<open>isspace\<close> is Python's notion of
  whitespace on that range: U+0009..U+000D, U+001C..U+0020, U+0085 and U+00A0.
\<close>

definition isspace :: "char \<Rightarrow> bool" where
  "isspace c = (let n = (of_char c :: nat)
                in (9 \<le> n \<and> n \<le> 13) \<or> (28 \<le> n \<and> n \<le> 32) \<or> n = 133 \<or> n = 160)"

definition lstrip :: "string \<Rightarrow> string" where
  "lstrip s = dropWhile isspace s"

definition rstrip :: "string \<Rightarrow> string" where
  "rstrip s = rev (dropWhile isspace (rev s))"

text \<open>\<open>s.strip()\<close>: leading and trailing whitespace removed.\<close>

definition strip :: "string \<Rightarrow> string" where
  "strip s = rstrip (lstrip s)"

text \<open>
  \<open>s.split(None, maxsplit)\<close>: runs of whitespace separate the tokens, at most
  \<open>maxsplit\<close> splits are made, and what is left after the last split (its leading
  whitespace skipped) is the final token, kept whole.
\<close>

fun split_ws :: "nat \<Rightarrow> string \<Rightarrow> string list" where
  "split_ws 0 s =
     (let r = dropWhile isspace s in if r = [] then [] else [r])"
| "split_ws (Suc n) s =
     (let r = dropWhile isspace s
      in if r = [] then []
         else takeWhile (\<lambda>c. \<not> isspace c) r # split_ws n (dropWhile (\<lambda>c. \<not> isspace c) r))"

section \<open>\<open>setup_icd10_data\<close>: the catalog entries and their chunk texts\<close>

record entry =
  code :: string
  short_description :: string
  long_description :: string

text \<open>The body of the loop over the lines of \<open>codes.txt\<close>, for one line.\<close>

definition parse_line :: "string \<Rightarrow> entry option" where
  "parse_line line =
     (let parts = split_ws 4 (strip line)
      in if length parts = 5
         then Some \<lparr>code = parts ! 1,
                    short_description = strip (parts ! 3),
                    long_description = strip (parts ! 4)\<rparr>
         else None)"

text \<open>The loop itself: \<open>entries\<close> starts empty and grows by \<open>append\<close>.\<close>

fun collect_entries :: "entry list \<Rightarrow> string list \<Rightarrow> entry list" where
  "collect_entries entries [] = entries"
| "collect_entries entries (line # lines) =
     (case parse_line line of
        Some e \<Rightarrow> collect_entries (entries @ [e]) lines
      | None \<Rightarrow> collect_entries entries lines)"

definition parse_entries :: "string list \<Rightarrow> entry list" where
  "parse_entries lines = collect_entries [] lines"

text \<open>The f-string of the \<open>chunks\<close> comprehension.\<close>

definition chunk_text :: "entry \<Rightarrow> string" where
  "chunk_text e = ''ICD Code: '' @ code e @ ''. Description: '' @ long_description e"

text \<open>The three lists that \<open>setup_icd10_data\<close> derives from the entries and persists.\<close>

definition chunks_of :: "entry list \<Rightarrow> string list" where
  "chunks_of entries = map chunk_text entries"

definition codes_of :: "entry list \<Rightarrow> string list" where
  "codes_of entries = map code entries"

definition descriptions_of :: "entry list \<Rightarrow> string list" where
  "descriptions_of entries = map long_description entries"

section \<open>Exceptions, indexing and the external capabilities\<close>

text \<open>A raised Python exception: the name of its class and \<open>str(e)\<close>.\<close>

datatype exn = Exn (exn_class: string) (exn_message: string)

fun show_nat :: "nat \<Rightarrow> string" where
  "show_nat n =
     (if n < 10 then [char_of (48 + n)]
      else show_nat (n div 10) @ [char_of (48 + n mod 10)])"

text \<open>\<open>xs[i]\<close> on a Python list: a negative index counts from the end.\<close>

definition py_getitem :: "'a list \<Rightarrow> int \<Rightarrow> exn + 'a" where
  "py_getitem xs i =
     (if 0 \<le> i \<and> i < int (length xs) then Inr (xs ! nat i)
      else if i < 0 \<and> - int (length xs) \<le> i then Inr (xs ! nat (int (length xs) + i))
      else Inl (Exn ''IndexError'' ''list index out of range''))"

text \<open>\<open>a[j]\<close> on the first axis of a numpy array, for a constant \<open>j \<ge> 0\<close>.\<close>

definition np_getitem :: "'a list \<Rightarrow> nat \<Rightarrow> exn + 'a" where
  "np_getitem xs j =
     (if j < length xs then Inr (xs ! j)
      else Inl (Exn ''IndexError''
             (''index '' @ show_nat j @ '' is out of bounds for axis 0 with size ''
              @ show_nat (length xs))))"

definition bind_exn :: "exn + 'a \<Rightarrow> ('a \<Rightarrow> exn + 'b) \<Rightarrow> exn + 'b" where
  "bind_exn m f = (case m of Inl e \<Rightarrow> Inl e | Inr x \<Rightarrow> f x)"

type_synonym vec = "rat list"

text \<open>\<open>embedder.encode(texts)\<close>: one vector per text, or an exception.\<close>

type_synonym encoder = "string list \<Rightarrow> exn + vec list"

text \<open>A flat L2 index: its dimension and the vectors added to it, in order.\<close>

record faiss_index =
  dim :: nat
  vectors :: "vec list"

text \<open>
  The libraries the script calls are parameters of the model: loading the
  sentence-transformer, \<open>index.search(queries, k)\<close> (the matrices \<open>D\<close> and \<open>I\<close>, one
  row per query), the scorer \<open>fuzz.token_sort_ratio\<close>, and the two float renderings
  that the f-strings use (\<open>{score}\<close> and \<open>{d:.3f}\<close>). Scores and distances are
  floats in the source and rationals here.
\<close>

record externals =
  sentence_transformer :: "string \<Rightarrow> exn + encoder"
  faiss_search :: "faiss_index \<Rightarrow> vec list \<Rightarrow> nat \<Rightarrow> exn + (rat list list \<times> int list list)"
  token_sort_ratio :: "string \<Rightarrow> string \<Rightarrow> rat"
  format_float :: "rat \<Rightarrow> string"
  format_3f :: "rat \<Rightarrow> string"

section \<open>\<open>rapidfuzz.process.extractOne\<close>\<close>

text \<open>
  The library's loop over \<open>enumerate(choices)\<close> with \<open>processor=None\<close>: the scorer is
  called with the current cutoff (a score below it comes back as 0), a choice replaces
  the result when its score reaches the cutoff and is strictly above the result so far,
  the cutoff then rises to that score, and the loop stops early at the optimal score
  100. The result is \<open>(choice, score, index)\<close> or \<open>None\<close>.
\<close>

fun extractOne_loop ::
  "(string \<Rightarrow> string \<Rightarrow> rat) \<Rightarrow> string \<Rightarrow> rat \<Rightarrow> (string \<times> rat \<times> nat) option
   \<Rightarrow> (nat \<times> string) list \<Rightarrow> (string \<times> rat \<times> nat) option" where
  "extractOne_loop scorer query score_cutoff result [] = result"
| "extractOne_loop scorer query score_cutoff result ((key, choice) # rest) =
     (let s = scorer query choice;
          score = (if s < score_cutoff then 0 else s)
      in if score \<ge> score_cutoff \<and>
            (case result of None \<Rightarrow> True | Some (_, result_score, _) \<Rightarrow> score > result_score)
         then (if score = 100 then Some (choice, score, key)
               else extractOne_loop scorer query score (Some (choice, score, key)) rest)
         else (if score = 100 then result
               else extractOne_loop scorer query score_cutoff result rest))"

definition extractOne ::
  "(string \<Rightarrow> string \<Rightarrow> rat) \<Rightarrow> string \<Rightarrow> string list \<Rightarrow> rat \<Rightarrow> (string \<times> rat \<times> nat) option" where
  "extractOne scorer query choices score_cutoff =
     extractOne_loop scorer query score_cutoff None (enumerate 0 choices)"

section \<open>\<open>map_diagnoses\<close>: the hybrid matcher\<close>

record match_result =
  original_diagnosis :: string
  matched_icd_code :: "string option"
  matched_description :: "string option"
  confidence_level :: string
  justification :: string
  alternative_codes :: string

text \<open>What \<open>map_diagnoses\<close> loads before the loop.\<close>

record assets =
  icd_chunks :: "string list"
  icd_codes :: "string list"
  icd_descs :: "string list"
  index :: faiss_index
  embedder :: encoder

text \<open>The calls an item makes to the embedder and to the index, in order.\<close>

datatype call = Encode "string list" | Search "vec list" nat

text \<open>\<open>M[i][j]\<close> on a two-dimensional array.\<close>

definition np_getitem2 :: "'a list list \<Rightarrow> nat \<Rightarrow> nat \<Rightarrow> exn + 'a" where
  "np_getitem2 M i j = bind_exn (np_getitem M i) (\<lambda>row. np_getitem row j)"

text \<open>A list comprehension: the first element that raises ends it.\<close>

fun map_exn :: "('a \<Rightarrow> exn + 'b) \<Rightarrow> 'a list \<Rightarrow> exn + 'b list" where
  "map_exn f [] = Inr []"
| "map_exn f (x # xs) =
     bind_exn (f x) (\<lambda>y. bind_exn (map_exn f xs) (\<lambda>ys. Inr (y # ys)))"

text \<open>One element of \<open>alt\<close>: \<open>(icd_codes[I[0][j]], icd_descs[I[0][j]], float(D[0][j]))\<close>.\<close>

definition alt_entry ::
  "assets \<Rightarrow> rat list list \<Rightarrow> int list list \<Rightarrow> nat \<Rightarrow> exn + (string \<times> string \<times> rat)" where
  "alt_entry a D I j =
     bind_exn (np_getitem2 I 0 j) (\<lambda>i.
     bind_exn (py_getitem (icd_codes a) i) (\<lambda>c.
     bind_exn (np_getitem2 I 0 j) (\<lambda>i'.
     bind_exn (py_getitem (icd_descs a) i') (\<lambda>d.
     bind_exn (np_getitem2 D 0 j) (\<lambda>dist. Inr (c, d, dist))))))"

text \<open>The \<open>if keyword_result:\<close> branch, up to the \<open>results.append\<close>.\<close>

definition keyword_match ::
  "externals \<Rightarrow> assets \<Rightarrow> string \<Rightarrow> string \<Rightarrow> rat \<Rightarrow> nat \<Rightarrow> exn + match_result" where
  "keyword_match ext a diag match score idx =
     bind_exn (py_getitem (icd_codes a) (int idx)) (\<lambda>code.
       let confidence = (if score \<ge> 95 then ''High'' else ''Medium'');
           justification = ''Keyword match with score '' @ format_float ext score
             @ ''/100. Confidence: '' @ confidence
             @ ''. Found similar phrase in ICD description.'';
           alternatives = []
       in bind_exn (py_getitem (icd_descs a) (int idx)) (\<lambda>description.
            Inr \<lparr>original_diagnosis = diag,
                 matched_icd_code = Some code,
                 matched_description = Some description,
                 confidence_level = confidence,
                 justification = justification,
                 alternative_codes = alternatives\<rparr>))"

text \<open>
  The test \<open>D[0][0] > 0.8\<close> compares a numpy \<open>float32\<close> with the Python float
  \<open>0.8\<close>. NumPy converts the Python float to the type of the array scalar, so the
  comparison is made between two \<open>float32\<close> values and the threshold is \<open>0.8\<close>
  rounded to single precision: the multiple of \<open>2^-24\<close> nearest to \<open>0.8\<close>, which is
  \<open>13421773 / 2^24 = 0.800000011920928955078125\<close>.
\<close>

definition np_float32_0_8 :: rat where
  "np_float32_0_8 = 13421773 / 16777216"

text \<open>The \<open>else\<close> branch after \<open>index.search\<close> has returned \<open>D\<close> and \<open>I\<close>.\<close>

definition semantic_match ::
  "externals \<Rightarrow> assets \<Rightarrow> string \<Rightarrow> rat list list \<Rightarrow> int list list \<Rightarrow> exn + match_result" where
  "semantic_match ext a diag D I =
     bind_exn (np_getitem2 I 0 0) (\<lambda>idx.
     bind_exn (map_exn (alt_entry a D I) [0, 1, 2]) (\<lambda>alt.
     bind_exn (py_getitem (icd_codes a) idx) (\<lambda>code.
     bind_exn (np_getitem2 D 0 0) (\<lambda>d0.
       let confidence = (if d0 > np_float32_0_8 then ''Low'' else ''Medium'');
           justification = ''Semantic match using Sentence-BERT. Distance: '' @ format_3f ext d0
             @ ''. Confidence: '' @ confidence
             @ ''. No direct keyword match found above threshold.'';
           alternatives = fst (alt ! 1) @ '' (distance: '' @ format_3f ext (snd (snd (alt ! 1)))
             @ ''), '' @ fst (alt ! 2) @ '' (distance: '' @ format_3f ext (snd (snd (alt ! 2)))
             @ '')''
       in bind_exn (py_getitem (icd_descs a) idx) (\<lambda>description.
            Inr \<lparr>original_diagnosis = diag,
                 matched_icd_code = Some code,
                 matched_description = Some description,
                 confidence_level = confidence,
                 justification = justification,
                 alternative_codes = alternatives\<rparr>)))))"

text \<open>
  The body of the \<open>try\<close> for one diagnosis: the calls it made to the embedder and the
  index, and either the dictionary it appends or the exception it raises.
\<close>

definition process_item ::
  "externals \<Rightarrow> assets \<Rightarrow> string \<Rightarrow> call list \<times> (exn + match_result)" where
  "process_item ext a diag =
     (case extractOne (token_sort_ratio ext) diag (icd_descs a) 85 of
        Some (match, score, idx) \<Rightarrow> ([], keyword_match ext a diag match score idx)
      | None \<Rightarrow>
          (case embedder a [diag] of
             Inl e \<Rightarrow> ([Encode [diag]], Inl e)
           | Inr emb \<Rightarrow>
               ([Encode [diag], Search emb 3],
                bind_exn (faiss_search ext (index a) emb 3)
                  (\<lambda>(D, I). semantic_match ext a diag D I))))"

text \<open>The dictionary appended by the \<open>except Exception as e\<close> handler.\<close>

definition error_result :: "string \<Rightarrow> exn \<Rightarrow> match_result" where
  "error_result diag e =
     \<lparr>original_diagnosis = diag,
      matched_icd_code = None,
      matched_description = None,
      confidence_level = ''Error'',
      justification = ''Error processing diagnosis: '' @ exn_message e,
      alternative_codes = []\<rparr>"

definition item_result :: "externals \<Rightarrow> assets \<Rightarrow> string \<Rightarrow> call list \<times> match_result" where
  "item_result ext a diag =
     (case process_item ext a diag of
        (calls, Inr r) \<Rightarrow> (calls, r)
      | (calls, Inl e) \<Rightarrow> (calls, error_result diag e))"

text \<open>The loop \<open>for diag in diagnoses_list\<close>; \<open>results\<close> grows by \<open>append\<close>.\<close>

fun diagnoses_loop ::
  "externals \<Rightarrow> assets \<Rightarrow> (call list \<times> match_result) list \<Rightarrow> string list
   \<Rightarrow> (call list \<times> match_result) list" where
  "diagnoses_loop ext a results [] = results"
| "diagnoses_loop ext a results (diag # rest) =
     diagnoses_loop ext a (results @ [item_result ext a diag]) rest"

section \<open>Files, standard output and the entry points\<close>

text \<open>A file on disk: absent, present but failing to load with an exception, or loaded.\<close>

datatype 'a disk_file = Missing | Corrupt exn | Stored 'a

record report =
  total_processed :: nat
  results :: "match_result list"

datatype printed = Line string | Json report

record world =
  codes_txt :: "string list disk_file"
  chunks_json :: "string list disk_file"
  codes_json :: "string list disk_file"
  descs_json :: "string list disk_file"
  index_file :: "faiss_index disk_file"
  stdout :: "printed list"

definition print :: "printed \<Rightarrow> world \<Rightarrow> world" where
  "print x w = w\<lparr>stdout := stdout w @ [x]\<rparr>"

definition exists_file :: "'a disk_file \<Rightarrow> bool" where
  "exists_file f = (f \<noteq> Missing)"

text \<open>\<open>open(path)\<close> followed by the load; a missing file raises \<open>FileNotFoundError\<close>.\<close>

definition load_file :: "string \<Rightarrow> 'a disk_file \<Rightarrow> exn + 'a" where
  "load_file path f =
     (case f of
        Missing \<Rightarrow> Inl (Exn ''FileNotFoundError''
          (''[Errno 2] No such file or directory: '' @ [CHR 0x27] @ path @ [CHR 0x27]))
      | Corrupt e \<Rightarrow> Inl e
      | Stored x \<Rightarrow> Inr x)"

text \<open>\<open>faiss.read_index\<close> reports a missing file as a \<open>RuntimeError\<close>.\<close>

definition read_index :: "string \<Rightarrow> faiss_index disk_file \<Rightarrow> exn + faiss_index" where
  "read_index path f =
     (case f of
        Missing \<Rightarrow> Inl (Exn ''RuntimeError''
          (''could not open '' @ path @ '' for reading: No such file or directory''))
      | Corrupt e \<Rightarrow> Inl e
      | Stored x \<Rightarrow> Inr x)"

definition EMBEDDING_MODEL_NAME :: string where
  "EMBEDDING_MODEL_NAME = ''all-MiniLM-L6-v2''"

definition setup_icd10_data :: "world \<Rightarrow> (exn + bool) \<times> world" where
  "setup_icd10_data w =
     (case codes_txt w of
        Missing \<Rightarrow>
          (Inr False,
           print (Line ''Error: codes.txt file not found. Please ensure it exists in the current directory.'') w)
      | Corrupt e \<Rightarrow> (Inl e, w)
      | Stored lines \<Rightarrow>
          (let entries = parse_entries lines
           in (Inr True,
               print (Line ''ICD-10 metadata processed.'')
                 (w\<lparr>chunks_json := Stored (chunks_of entries),
                    codes_json := Stored (codes_of entries),
                    descs_json := Stored (descriptions_of entries)\<rparr>))))"

text \<open>
  \<open>create_embedding_index\<close>. Only \<open>FileNotFoundError\<close> is caught, so every other
  exception leaves the function; \<open>embeddings[0]\<close> raises \<open>IndexError\<close> on an empty array.
\<close>

definition create_embedding_index :: "externals \<Rightarrow> world \<Rightarrow> (exn + bool) \<times> world" where
  "create_embedding_index ext w =
     (case chunks_json w of
        Missing \<Rightarrow>
          (Inr False, print (Line ''Error: ICD chunks file not found. Run setup_icd10_data() first.'') w)
      | Corrupt e \<Rightarrow> (Inl e, w)
      | Stored chunks \<Rightarrow>
          (let w1 = print (Line ''Downloading Sentence-BERT model (this may take several minutes on first run)...'') w
           in case sentence_transformer ext EMBEDDING_MODEL_NAME of
                Inl e \<Rightarrow> (Inl e, w1)
              | Inr enc \<Rightarrow>
                  (let w2 = print (Line ''Model loaded successfully. Creating embeddings...'') w1
                   in case enc chunks of
                        Inl e \<Rightarrow> (Inl e, w2)
                      | Inr embeddings \<Rightarrow>
                          (case np_getitem embeddings 0 of
                             Inl e \<Rightarrow> (Inl e, w2)
                           | Inr first \<Rightarrow>
                               (Inr True,
                                print (Line ''FAISS index created.'')
                                  (w2\<lparr>index_file :=
                                        Stored \<lparr>dim = length first, vectors = embeddings\<rparr>\<rparr>))))))"

text \<open>The \<open>try\<close> block at the head of \<open>map_diagnoses\<close>.\<close>

definition load_assets :: "externals \<Rightarrow> world \<Rightarrow> exn + assets" where
  "load_assets ext w =
     bind_exn (load_file ''icd10_kb/icd_chunks_3.json'' (chunks_json w)) (\<lambda>chunks.
     bind_exn (load_file ''icd10_kb/icd_codes_3.json'' (codes_json w)) (\<lambda>codes.
     bind_exn (load_file ''icd10_kb/icd_descriptions_3.json'' (descs_json w)) (\<lambda>descs.
     bind_exn (read_index ''icd10_index_3.faiss'' (index_file w)) (\<lambda>ix.
     bind_exn (sentence_transformer ext EMBEDDING_MODEL_NAME) (\<lambda>enc.
       Inr \<lparr>icd_chunks = chunks, icd_codes = codes, icd_descs = descs,
            index = ix, embedder = enc\<rparr>)))))"

text \<open>The argument of \<open>map_diagnoses\<close>: a \<open>str\<close> or a list of them.\<close>

datatype diagnoses_input = Single string | Many "string list"

definition diagnoses_list :: "diagnoses_input \<Rightarrow> string list" where
  "diagnoses_list diagnoses_input =
     (case diagnoses_input of Single d \<Rightarrow> [d] | Many ds \<Rightarrow> ds)"

text \<open>
  \<open>map_diagnoses\<close> with the calls of every item beside its result, and then the
  function as the source returns it.
\<close>

definition map_diagnoses_traced ::
  "externals \<Rightarrow> world \<Rightarrow> diagnoses_input \<Rightarrow> (call list \<times> match_result) list \<times> world" where
  "map_diagnoses_traced ext w diagnoses_input =
     (case load_assets ext w of
        Inl e \<Rightarrow> ([], print (Line (''Error loading assets: '' @ exn_message e)) w)
      | Inr a \<Rightarrow> (diagnoses_loop ext a [] (diagnoses_list diagnoses_input), w))"

definition map_diagnoses ::
  "externals \<Rightarrow> world \<Rightarrow> diagnoses_input \<Rightarrow> match_result list \<times> world" where
  "map_diagnoses ext w diagnoses_input =
     (case map_diagnoses_traced ext w diagnoses_input of (rs, w') \<Rightarrow> (map snd rs, w'))"

definition initialize_system :: "externals \<Rightarrow> world \<Rightarrow> (exn + bool) \<times> world" where
  "initialize_system ext w =
     (let w1 = print (Line ''Initializing ICD-10 mapping system...'') w;
          (r2, w2) =
            (if \<not> exists_file (codes_json w1)
             then setup_icd10_data (print (Line ''Setting up ICD-10 data...'') w1)
             else (Inr True, w1))
      in case r2 of
           Inl e \<Rightarrow> (Inl e, w2)
         | Inr False \<Rightarrow> (Inr False, w2)
         | Inr True \<Rightarrow>
             (let (r3, w3) =
                    (if \<not> exists_file (index_file w2)
                     then create_embedding_index ext (print (Line ''Creating embedding index...'') w2)
                     else (Inr True, w2))
              in case r3 of
                   Inl e \<Rightarrow> (Inl e, w3)
                 | Inr False \<Rightarrow> (Inr False, w3)
                 | Inr True \<Rightarrow> (Inr True, print (Line ''System initialized successfully!'') w3)))"

text \<open>How a run of \<open>main\<close> ends, and the exit status of the process.\<close>

datatype outcome = Returned | SysExit nat | Uncaught exn

definition exit_status :: "outcome \<Rightarrow> nat" where
  "exit_status out = (case out of Returned \<Rightarrow> 0 | SysExit n \<Rightarrow> n | Uncaught e \<Rightarrow> 1)"

definition main :: "externals \<Rightarrow> world \<Rightarrow> string list \<Rightarrow> outcome \<times> world" where
  "main ext w argv =
     (if length argv < 2
      then (SysExit 1,
            print (Line (''Example: python icd10_mapper.py '' @ [CHR 0x22]
                         @ ''acute myocardial infarction'' @ [CHR 0x22]))
              (print (Line (''Usage: python icd10_mapper.py '' @ [CHR 0x22] @ ''diagnosis text''
                              @ [CHR 0x22] @ '' ['' @ [CHR 0x22] @ ''diagnosis2'' @ [CHR 0x22]
                              @ ''] ...'')) w))
      else case initialize_system ext w of
             (Inl e, w1) \<Rightarrow> (Uncaught e, w1)
           | (Inr False, w1) \<Rightarrow> (SysExit 1, w1)
           | (Inr True, w1) \<Rightarrow>
               (let diagnoses = tl argv;
                    (rs, w2) = map_diagnoses ext w1 (Many diagnoses);
                    output = \<lparr>total_processed = length diagnoses, results = rs\<rparr>
                in (Returned, print (Json output) w2)))"

section \<open>Deterministic stand-ins for the external capabilities\<close>

text \<open>
  Concrete instances on which the theorems below are exercised: a three-entry catalog, an
  encoder that fails on one particular text, an index search that always answers with
  the same three neighbours, and table-driven scorer and float renderings.
\<close>

definition stub_encoder :: encoder where
  "stub_encoder texts =
     (if ''unencodable'' \<in> set texts then Inl (Exn ''RuntimeError'' ''encode failed'')
      else Inr (map (\<lambda>t. [of_nat (length t), 0]) texts))"

definition stub_externals :: externals where
  "stub_externals =
     \<lparr>sentence_transformer = (\<lambda>name. Inr stub_encoder),
      faiss_search = (\<lambda>ix queries k.
         Inr (map (\<lambda>q. [9 / 10, 11 / 10, 13 / 10]) queries, map (\<lambda>q. [2, 0, 1]) queries)),
      token_sort_ratio = (\<lambda>s1 s2.
         if s1 = s2 then 100
         else if s1 = ''cholera'' \<and> s2 = ''Cholera'' then 90
         else 20),
      format_float = (\<lambda>x. show_nat (nat \<lfloor>x\<rfloor>) @ ''.0''),
      format_3f = (\<lambda>x. show_nat (nat \<lfloor>x\<rfloor>) @ ''.''
                     @ show_nat (nat \<lfloor>x * 10\<rfloor> mod 10)
                     @ show_nat (nat \<lfloor>x * 100\<rfloor> mod 10)
                     @ show_nat (nat \<lfloor>x * 1000\<rfloor> mod 10))\<rparr>"

text \<open>The same capabilities with a nearest neighbour at distance \<open>float32(0.8)\<close>.\<close>

definition boundary_externals :: externals where
  "boundary_externals =
     stub_externals\<lparr>faiss_search := (\<lambda>ix queries k.
        Inr (map (\<lambda>q. [13421773 / 16777216, 11 / 10, 13 / 10]) queries,
             map (\<lambda>q. [2, 0, 1]) queries))\<rparr>"

definition stub_assets :: assets where
  "stub_assets =
     \<lparr>icd_chunks = [''ICD Code: A00. Description: Cholera'',
                    ''ICD Code: A01. Description: Typhoid fever'',
                    ''ICD Code: I21. Description: Acute myocardial infarction''],
      icd_codes = [''A00'', ''A01'', ''I21''],
      icd_descs = [''Cholera'', ''Typhoid fever'', ''Acute myocardial infarction''],
      index = \<lparr>dim = 2, vectors = [[7, 0], [13, 0], [27, 0]]\<rparr>,
      embedder = stub_encoder\<rparr>"

text \<open>A disk on which everything has been built, and one whose chunk file is gone.\<close>

definition stub_world :: world where
  "stub_world =
     \<lparr>codes_txt = Missing,
      chunks_json = Stored (icd_chunks stub_assets),
      codes_json = Stored (icd_codes stub_assets),
      descs_json = Stored (icd_descs stub_assets),
      index_file = Stored (index stub_assets),
      stdout = []\<rparr>"

definition broken_world :: world where
  "broken_world = stub_world\<lparr>chunks_json := Missing\<rparr>"

text \<open>A disk after \<open>setup_icd10_data\<close> has run on a catalog without a single entry.\<close>

definition empty_catalog_world :: world where
  "empty_catalog_world =
     \<lparr>codes_txt = Stored [],
      chunks_json = Stored [],
      codes_json = Stored [],
      descs_json = Stored [],
      index_file = Missing,
      stdout = []\<rparr>"

text \<open>
  The reading of one raw line in the words of the specification: the line itself is
  split with at most four splits, the fifth token being the rest of the line.
\<close>

definition spec_line :: "string \<Rightarrow> entry option" where
  "spec_line line =
     (let tokens = split_ws 4 line
      in if length tokens = 5
         then Some \<lparr>code = tokens ! 1,
                    short_description = tokens ! 3,
                    long_description = strip (tokens ! 4)\<rparr>
         else None)"

section \<open>Catalog parsing\<close>

subsection \<open>Trimming and splitting\<close>

lemma rstrip_Nil [simp]: "rstrip [] = []"
  by (simp add: rstrip_def)

lemma rstrip_eq_Nil: "rstrip s = [] \<longleftrightarrow> (\<forall>c\<in>set s. isspace c)"
  by (simp add: rstrip_def dropWhile_eq_Nil_conv)

lemma rstrip_Cons:
  "rstrip (c # s) = (if isspace c \<and> rstrip s = [] then [] else c # rstrip s)"
  by (auto simp: rstrip_def dropWhile_append dropWhile_eq_Nil_conv)

lemma dropWhile_rstrip:
  "dropWhile isspace (rstrip s) = rstrip (dropWhile isspace s)"
proof (induction s)
  case Nil
  show ?case by simp
next
  case (Cons c s)
  show ?case
  proof (cases "isspace c")
    case False
    then show ?thesis by (simp add: rstrip_Cons)
  next
    case True
    show ?thesis
    proof (cases "rstrip s = []")
      case True
      then have "rstrip (dropWhile isspace s) = []"
        by (auto simp: rstrip_eq_Nil dest: set_dropWhileD)
      with True \<open>isspace c\<close> show ?thesis by (simp add: rstrip_Cons)
    next
      case False
      with True Cons show ?thesis by (simp add: rstrip_Cons)
    qed
  qed
qed

lemma takeWhile_rstrip:
  "takeWhile (\<lambda>c. \<not> isspace c) (rstrip s) = takeWhile (\<lambda>c. \<not> isspace c) s"
  by (induction s) (simp_all add: rstrip_Cons)

lemma dropWhile_not_rstrip:
  "dropWhile (\<lambda>c. \<not> isspace c) (rstrip s) = rstrip (dropWhile (\<lambda>c. \<not> isspace c) s)"
  by (induction s) (simp_all add: rstrip_Cons)

lemma rstrip_nospace: "\<forall>c\<in>set s. \<not> isspace c \<Longrightarrow> rstrip s = s"
  by (induction s) (simp_all add: rstrip_Cons)

lemma lstrip_nospace: "\<forall>c\<in>set s. \<not> isspace c \<Longrightarrow> lstrip s = s"
  by (cases s) (simp_all add: lstrip_def)

lemma rstrip_idem: "rstrip (rstrip s) = rstrip s"
  by (simp add: rstrip_def)

lemma split_ws_lstrip: "split_ws n (lstrip s) = split_ws n s"
  by (cases n) (simp_all add: lstrip_def)


lemma split_ws_Suc_Nil:
  "dropWhile isspace s = [] \<Longrightarrow> split_ws (Suc n) s = []"
  by (simp add: Let_def del: dropWhile_eq_Nil_conv)

lemma split_ws_Suc_Cons:
  "dropWhile isspace s \<noteq> [] \<Longrightarrow>
   split_ws (Suc n) s =
     takeWhile (\<lambda>c. \<not> isspace c) (dropWhile isspace s) #
     split_ws n (dropWhile (\<lambda>c. \<not> isspace c) (dropWhile isspace s))"
  by (simp add: Let_def del: dropWhile_eq_Nil_conv)

lemma split_ws_0:
  "split_ws 0 s = (if dropWhile isspace s = [] then [] else [dropWhile isspace s])"
  by (simp add: Let_def del: dropWhile_eq_Nil_conv)

lemma lstrip_rstrip_eq_Nil:
  "(dropWhile isspace (rstrip s) = []) = (dropWhile isspace s = [])"
proof -
  have "(rstrip (dropWhile isspace s) = []) = (dropWhile isspace s = [])"
  proof
    assume "rstrip (dropWhile isspace s) = []"
    then have all: "\<forall>c\<in>set (dropWhile isspace s). isspace c" by (simp only: rstrip_eq_Nil)
    show "dropWhile isspace s = []"
    proof (rule ccontr)
      assume ne: "dropWhile isspace s \<noteq> []"
      then have "\<not> isspace (hd (dropWhile isspace s))" by (rule hd_dropWhile)
      moreover from ne have "hd (dropWhile isspace s) \<in> set (dropWhile isspace s)" by (rule hd_in_set)
      ultimately show False using all by blast
    qed
  next
    assume "dropWhile isspace s = []"
    then show "rstrip (dropWhile isspace s) = []" by (simp only: rstrip_Nil)
  qed
  then show ?thesis by (simp only: dropWhile_rstrip)
qed

lemma split_ws_rstrip: "split_ws n (rstrip s) = map rstrip (split_ws n s)"
proof (induction n arbitrary: s)
  case 0
  show ?case
    by (simp only: split_ws_0 lstrip_rstrip_eq_Nil) (simp add: dropWhile_rstrip del: dropWhile_eq_Nil_conv)
next
  case (Suc n)
  let ?r = "dropWhile isspace s"
  have tok: "rstrip (takeWhile (\<lambda>c. \<not> isspace c) ?r) = takeWhile (\<lambda>c. \<not> isspace c) ?r"
    by (rule rstrip_nospace) (auto dest: set_takeWhileD)
  show ?case
  proof (cases "?r = []")
    case True
    then have "dropWhile isspace (rstrip s) = []" by (simp only: lstrip_rstrip_eq_Nil)
    with True show ?thesis by (simp only: split_ws_Suc_Nil list.map)
  next
    case False
    then have ne: "dropWhile isspace (rstrip s) \<noteq> []" using lstrip_rstrip_eq_Nil by blast
    show ?thesis
      by (simp only: split_ws_Suc_Cons[OF ne] split_ws_Suc_Cons[OF False] dropWhile_rstrip
            takeWhile_rstrip dropWhile_not_rstrip Suc.IH tok list.map)
  qed
qed

lemma split_ws_strip: "split_ws n (strip s) = map rstrip (split_ws n s)"
  by (simp add: strip_def split_ws_rstrip split_ws_lstrip)

lemma split_ws_token_nospace:
  "i < n \<Longrightarrow> i < length (split_ws n s) \<Longrightarrow> c \<in> set (split_ws n s ! i) \<Longrightarrow> \<not> isspace c"
proof (induction n arbitrary: s i)
  case 0
  then show ?case by simp
next
  case (Suc n)
  let ?r = "dropWhile isspace s"
  have ne: "?r \<noteq> []"
  proof
    assume "?r = []"
    then have "split_ws (Suc n) s = []" by (rule split_ws_Suc_Nil)
    with Suc.prems show False by simp
  qed
  then have eq: "split_ws (Suc n) s =
      takeWhile (\<lambda>c. \<not> isspace c) ?r # split_ws n (dropWhile (\<lambda>c. \<not> isspace c) ?r)"
    by (rule split_ws_Suc_Cons)
  show ?case
  proof (cases i)
    case 0
    with Suc.prems(3) have "c \<in> set (takeWhile (\<lambda>c. \<not> isspace c) ?r)"
      by (simp only: eq nth_Cons_0)
    then show ?thesis by (rule set_takeWhileD[THEN conjunct2])
  next
    case j: (Suc j)
    from Suc.prems j have "j < n" by simp
    moreover from Suc.prems(2) j
    have "j < length (split_ws n (dropWhile (\<lambda>c. \<not> isspace c) ?r))"
      by (simp only: eq length_Cons Suc_less_eq)
    moreover from Suc.prems(3) j
    have "c \<in> set (split_ws n (dropWhile (\<lambda>c. \<not> isspace c) ?r) ! j)"
      by (simp only: eq nth_Cons_Suc)
    ultimately show ?thesis by (rule Suc.IH)
  qed
qed

lemma strip_rstrip: "strip (rstrip s) = strip s"
  by (simp add: strip_def lstrip_def dropWhile_rstrip rstrip_idem)

lemma strip_nospace: "\<forall>c\<in>set s. \<not> isspace c \<Longrightarrow> strip s = s"
  by (simp add: strip_def lstrip_nospace rstrip_nospace)

lemma parse_line_spec: "parse_line line = spec_line line"
proof (cases "length (split_ws 4 line) = 5")
  case True
  have "\<forall>c\<in>set (split_ws 4 line ! 1). \<not> isspace c"
    using True split_ws_token_nospace[of 1 4 line] by simp
  moreover have "\<forall>c\<in>set (split_ws 4 line ! 3). \<not> isspace c"
    using True split_ws_token_nospace[of 3 4 line] by simp
  ultimately have "rstrip (split_ws 4 line ! 1) = split_ws 4 line ! 1"
    "strip (rstrip (split_ws 4 line ! 3)) = split_ws 4 line ! 3"
    by (simp_all only: rstrip_nospace strip_nospace)
  with True show ?thesis
    by (simp add: parse_line_def spec_line_def split_ws_strip strip_rstrip Let_def)
next
  case False
  then show ?thesis
    by (simp add: parse_line_def spec_line_def split_ws_strip)
qed

lemma collect_entries_map_filter:
  "collect_entries acc lines = acc @ List.map_filter parse_line lines"
  by (induction lines arbitrary: acc) (simp_all add: List.map_filter_simps split: option.splits)


lemma parse_entries_map_filter: "parse_entries lines = List.map_filter parse_line lines"
  by (simp add: parse_entries_def collect_entries_map_filter)

lemma split_ws_rest_suffix:
  "length (split_ws n s) = Suc n \<Longrightarrow> suffix (split_ws n s ! n) s"
proof (induction n arbitrary: s)
  case 0
  then have "split_ws 0 s = [dropWhile isspace s]"
    by (cases "dropWhile isspace s = []") (simp_all only: split_ws_0 if_True if_False list.size, simp)
  then show ?case by (simp only: nth_Cons_0 suffix_dropWhile)
next
  case (Suc n)
  let ?r = "dropWhile isspace s"
  let ?rest = "dropWhile (\<lambda>c. \<not> isspace c) ?r"
  have ne: "?r \<noteq> []"
  proof
    assume "?r = []"
    then have "split_ws (Suc n) s = []" by (rule split_ws_Suc_Nil)
    with Suc.prems show False by simp
  qed
  note eq = split_ws_Suc_Cons[OF ne, of n]
  from Suc.prems have "length (split_ws n ?rest) = Suc n" by (simp only: eq length_Cons nat.inject)
  then have "suffix (split_ws n ?rest ! n) ?rest" by (rule Suc.IH)
  moreover have "suffix ?rest ?r" by (rule suffix_dropWhile)
  moreover have "suffix ?r s" by (rule suffix_dropWhile)
  ultimately have "suffix (split_ws n ?rest ! n) s" by (meson suffix_order.trans)
  then show ?case by (simp only: eq nth_Cons_Suc)
qed

text \<open>
  C6. A raw line yields a catalog entry exactly when splitting the line itself on
  whitespace with at most four splits gives five tokens. The entry then takes the second
  token as code, the fourth as short description and the trimmed fifth token as long
  description, the fifth token being the rest of the line; the first and third tokens are
  dropped. Any other line yields nothing, and the parser is a total function: no line
  makes it raise.
\<close>

theorem catalog_entry_iff_five_tokens:
  "parse_entries lines = List.map_filter spec_line lines
   \<and> (parse_line line \<noteq> None \<longleftrightarrow> length (split_ws 4 line) = 5)
   \<and> (length (split_ws 4 line) = 5 \<longrightarrow>
        parse_line line = Some \<lparr>code = split_ws 4 line ! 1,
                                 short_description = split_ws 4 line ! 3,
                                 long_description = strip (split_ws 4 line ! 4)\<rparr>
        \<and> suffix (split_ws 4 line ! 4) line)"
proof -
  have "parse_line = spec_line" by (rule ext) (rule parse_line_spec)
  then have "parse_entries lines = List.map_filter spec_line lines"
    by (simp only: parse_entries_map_filter)
  moreover have "parse_line line \<noteq> None \<longleftrightarrow> length (split_ws 4 line) = 5"
    by (simp add: parse_line_spec spec_line_def Let_def)
  moreover have "length (split_ws 4 line) = 5 \<longrightarrow>
        parse_line line = Some \<lparr>code = split_ws 4 line ! 1,
                                 short_description = split_ws 4 line ! 3,
                                 long_description = strip (split_ws 4 line ! 4)\<rparr>"
    by (simp add: parse_line_spec spec_line_def Let_def)
  moreover have "length (split_ws 4 line) = 5 \<longrightarrow> suffix (split_ws 4 line ! 4) line"
    using split_ws_rest_suffix[of 4 line] by simp
  ultimately show ?thesis by blast
qed

theorem catalog_entry_iff_five_tokens_witness:
  "length (split_ws 4 ''00001 A000 0 Cholera Cholera due to  Vibrio\<newline>'') = 5
   \<and> parse_line ''00001 A000 0 Cholera Cholera due to  Vibrio\<newline>'' =
       Some \<lparr>code = ''A000'', short_description = ''Cholera'',
             long_description = ''Cholera due to  Vibrio''\<rparr>
   \<and> suffix ''Cholera due to  Vibrio\<newline>'' ''00001 A000 0 Cholera Cholera due to  Vibrio\<newline>''
   \<and> parse_line ''00002 A001 0'' = None"
proof -
  let ?l = "''00001 A000 0 Cholera Cholera due to  Vibrio\<newline>''"
  have ts: "split_ws 4 ?l = [''00001'', ''A000'', ''0'', ''Cholera'', ''Cholera due to  Vibrio\<newline>'']"
    by code_simp
  have st: "strip ''Cholera due to  Vibrio\<newline>'' = ''Cholera due to  Vibrio''"
    by code_simp
  have "length (split_ws 4 ''00002 A001 0'') \<noteq> 5" by code_simp
  with catalog_entry_iff_five_tokens[of "[]" "''00002 A001 0''"]
  have "parse_line ''00002 A001 0'' = None" by blast
  moreover have len: "length (split_ws 4 ?l) = 5" by (simp add: ts)
  moreover from len catalog_entry_iff_five_tokens[of "[]" ?l]
  have "parse_line ?l = Some \<lparr>code = split_ws 4 ?l ! 1,
                                 short_description = split_ws 4 ?l ! 3,
                                 long_description = strip (split_ws 4 ?l ! 4)\<rparr>
        \<and> suffix (split_ws 4 ?l ! 4) ?l"
    by blast
  ultimately show ?thesis by (simp add: ts st)
qed

section \<open>Chunk texts\<close>

text \<open>
  C7, as the claim words it: the chunk text of an entry would be
  \<open>Code: {code}. Description: {long_description}\<close>. The f-string of the source starts
  with \<open>ICD Code: \<close>, so the two differ on every entry; here on one.
\<close>

theorem chunk_text_counterexample:
  "chunk_text \<lparr>code = ''A000'', short_description = ''Cholera'',
               long_description = ''Cholera due to Vibrio cholerae''\<rparr>
   \<noteq> ''Code: '' @ ''A000'' @ ''. Description: '' @ ''Cholera due to Vibrio cholerae''"
  by (simp add: chunk_text_def)

text \<open>
  C7, amended: the chunk text of an entry is exactly
  \<open>ICD Code: {code}. Description: {long_description}\<close>, a function of the entry alone,
  and the chunk list that \<open>setup_icd10_data\<close> persists holds one such text per parsed
  entry, in catalog order.
\<close>

theorem chunk_text_icd_code_format:
  "chunk_text e = ''ICD Code: '' @ code e @ ''. Description: '' @ long_description e
   \<and> (codes_txt w = Stored lines \<longrightarrow>
        chunks_json (snd (setup_icd10_data w)) = Stored (map chunk_text (parse_entries lines)))"
  by (simp add: chunk_text_def setup_icd10_data_def chunks_of_def print_def Let_def)

theorem chunk_text_icd_code_format_witness:
  "chunks_json (snd (setup_icd10_data
      \<lparr>codes_txt = Stored [''00001 A000 0 Cholera Cholera due to  Vibrio\<newline>'', ''bad line''],
       chunks_json = Missing, codes_json = Missing, descs_json = Missing,
       index_file = Missing, stdout = []\<rparr>))
   = Stored [''ICD Code: A000. Description: Cholera due to  Vibrio'']"
proof -
  let ?lines = "[''00001 A000 0 Cholera Cholera due to  Vibrio\<newline>'', ''bad line'']"
  let ?w = "\<lparr>codes_txt = Stored ?lines,
       chunks_json = Missing, codes_json = Missing, descs_json = Missing,
       index_file = Missing, stdout = []\<rparr>"
  have "codes_txt ?w = Stored ?lines" by simp
  with chunk_text_icd_code_format[of _ ?w ?lines]
  have "chunks_json (snd (setup_icd10_data ?w)) = Stored (map chunk_text (parse_entries ?lines))"
    by blast
  moreover have "map chunk_text (parse_entries ?lines) =
      [''ICD Code: A000. Description: Cholera due to  Vibrio'']"
    by code_simp
  ultimately show ?thesis by simp
qed

section \<open>The lexical stage\<close>

subsection \<open>What \<open>extractOne\<close> returns\<close>

lemma extractOne_loop_from_Some:
  assumes "0 < s0" "\<forall>p\<in>set xs. sc q (snd p) \<le> 100"
  shows "\<exists>c s k. extractOne_loop sc q s0 (Some (c0, s0, k0)) xs = Some (c, s, k) \<and>
           (((c, s, k) = (c0, s0, k0) \<and> (\<forall>p\<in>set xs. sc q (snd p) \<le> s0)) \<or>
            (\<exists>ys zs. xs = ys @ (k, c) # zs \<and> s = sc q c \<and> s0 < s \<and>
                (\<forall>p\<in>set ys. sc q (snd p) < s) \<and> (\<forall>p\<in>set zs. sc q (snd p) \<le> s)))"
  using assms
proof (induction xs arbitrary: c0 s0 k0)
  case Nil
  show ?case by simp
next
  case (Cons x xs)
  obtain k1 c1 where x: "x = (k1, c1)" by (cases x)
  let ?s1 = "sc q c1"
  from Cons.prems have le1: "?s1 \<le> 100" and rest: "\<forall>p\<in>set xs. sc q (snd p) \<le> 100"
    by (simp_all add: x)
  have found: "?case"
    if "extractOne_loop sc q s0 (Some (c0, s0, k0)) (x # xs) = Some (c, s, k)"
      "x # xs = ys @ (k, c) # zs" "s = sc q c" "s0 < s"
      "\<forall>p\<in>set ys. sc q (snd p) < s" "\<forall>p\<in>set zs. sc q (snd p) \<le> s"
    for c s k ys zs
    using that by blast
  have kept: "?case"
    if "extractOne_loop sc q s0 (Some (c0, s0, k0)) (x # xs) = Some (c0, s0, k0)"
      "\<forall>p\<in>set (x # xs). sc q (snd p) \<le> s0"
    using that by blast
  consider (gt) "s0 < ?s1" | (eq) "?s1 = s0" | (lt) "?s1 < s0" by linarith
  then show ?case
  proof cases
    case gt
    show ?thesis
    proof (cases "?s1 = 100")
      case True
      with gt have "extractOne_loop sc q s0 (Some (c0, s0, k0)) (x # xs) = Some (c1, ?s1, k1)"
        by (simp add: x Let_def)
      moreover have "x # xs = [] @ (k1, c1) # xs" by (simp add: x Let_def)
      moreover have "\<forall>p\<in>set xs. sc q (snd p) \<le> ?s1" using rest True by simp
      ultimately show ?thesis using gt by (intro found[of c1 ?s1 k1 "[]" xs]) simp_all
    next
      case False
      with gt have step: "extractOne_loop sc q s0 (Some (c0, s0, k0)) (x # xs) =
          extractOne_loop sc q ?s1 (Some (c1, ?s1, k1)) xs"
        by (simp add: x Let_def)
      from gt Cons.prems(1) have pos: "0 < ?s1" by linarith
      from Cons.IH[OF pos rest, of c1 k1] obtain c s k where
        r: "extractOne_loop sc q ?s1 (Some (c1, ?s1, k1)) xs = Some (c, s, k)" and
        d: "((c, s, k) = (c1, ?s1, k1) \<and> (\<forall>p\<in>set xs. sc q (snd p) \<le> ?s1)) \<or>
            (\<exists>ys zs. xs = ys @ (k, c) # zs \<and> s = sc q c \<and> ?s1 < s \<and>
                (\<forall>p\<in>set ys. sc q (snd p) < s) \<and> (\<forall>p\<in>set zs. sc q (snd p) \<le> s))"
        by blast
      from d show ?thesis
      proof
        assume a: "(c, s, k) = (c1, ?s1, k1) \<and> (\<forall>p\<in>set xs. sc q (snd p) \<le> ?s1)"
        then show ?thesis using r step gt
          by (intro found[of c s k "[]" xs]) (simp_all add: x)
      next
        assume "\<exists>ys zs. xs = ys @ (k, c) # zs \<and> s = sc q c \<and> ?s1 < s \<and>
                (\<forall>p\<in>set ys. sc q (snd p) < s) \<and> (\<forall>p\<in>set zs. sc q (snd p) \<le> s)"
        then obtain ys zs where a: "xs = ys @ (k, c) # zs" "s = sc q c" "?s1 < s"
          "\<forall>p\<in>set ys. sc q (snd p) < s" "\<forall>p\<in>set zs. sc q (snd p) \<le> s"
          by blast
        then show ?thesis using r step gt
          by (intro found[of c s k "x # ys" zs]) (simp_all add: x)
      qed
    qed
  next
    case eq
    show ?thesis
    proof (cases "s0 = 100")
      case True
      with eq have "extractOne_loop sc q s0 (Some (c0, s0, k0)) (x # xs) = Some (c0, s0, k0)"
        by (simp add: x Let_def)
      moreover have "\<forall>p\<in>set (x # xs). sc q (snd p) \<le> s0"
        using Cons.prems(2) True by simp
      ultimately show ?thesis by (rule kept)
    next
      case False
      with eq have step: "extractOne_loop sc q s0 (Some (c0, s0, k0)) (x # xs) =
          extractOne_loop sc q s0 (Some (c0, s0, k0)) xs"
        by (simp add: x Let_def)
      from Cons.IH[OF Cons.prems(1) rest, of c0 k0] obtain c s k where
        r: "extractOne_loop sc q s0 (Some (c0, s0, k0)) xs = Some (c, s, k)" and
        d: "((c, s, k) = (c0, s0, k0) \<and> (\<forall>p\<in>set xs. sc q (snd p) \<le> s0)) \<or>
            (\<exists>ys zs. xs = ys @ (k, c) # zs \<and> s = sc q c \<and> s0 < s \<and>
                (\<forall>p\<in>set ys. sc q (snd p) < s) \<and> (\<forall>p\<in>set zs. sc q (snd p) \<le> s))"
        by blast
      from d show ?thesis
      proof
        assume "(c, s, k) = (c0, s0, k0) \<and> (\<forall>p\<in>set xs. sc q (snd p) \<le> s0)"
        then show ?thesis using r step eq
          by (intro kept) (simp_all add: x)
      next
        assume "\<exists>ys zs. xs = ys @ (k, c) # zs \<and> s = sc q c \<and> s0 < s \<and>
                (\<forall>p\<in>set ys. sc q (snd p) < s) \<and> (\<forall>p\<in>set zs. sc q (snd p) \<le> s)"
        then obtain ys zs where a: "xs = ys @ (k, c) # zs" "s = sc q c" "s0 < s"
          "\<forall>p\<in>set ys. sc q (snd p) < s" "\<forall>p\<in>set zs. sc q (snd p) \<le> s"
          by blast
        then show ?thesis using r step eq
          by (intro found[of c s k "x # ys" zs]) (simp_all add: x)
      qed
    qed
  next
    case lt
    with Cons.prems(1) have step: "extractOne_loop sc q s0 (Some (c0, s0, k0)) (x # xs) =
          extractOne_loop sc q s0 (Some (c0, s0, k0)) xs"
      by (simp add: x Let_def)
    from Cons.IH[OF Cons.prems(1) rest, of c0 k0] obtain c s k where
      r: "extractOne_loop sc q s0 (Some (c0, s0, k0)) xs = Some (c, s, k)" and
      d: "((c, s, k) = (c0, s0, k0) \<and> (\<forall>p\<in>set xs. sc q (snd p) \<le> s0)) \<or>
          (\<exists>ys zs. xs = ys @ (k, c) # zs \<and> s = sc q c \<and> s0 < s \<and>
              (\<forall>p\<in>set ys. sc q (snd p) < s) \<and> (\<forall>p\<in>set zs. sc q (snd p) \<le> s))"
      by blast
    from d show ?thesis
    proof
      assume "(c, s, k) = (c0, s0, k0) \<and> (\<forall>p\<in>set xs. sc q (snd p) \<le> s0)"
      then show ?thesis using r step lt
        by (intro kept) (simp_all add: x)
    next
      assume "\<exists>ys zs. xs = ys @ (k, c) # zs \<and> s = sc q c \<and> s0 < s \<and>
              (\<forall>p\<in>set ys. sc q (snd p) < s) \<and> (\<forall>p\<in>set zs. sc q (snd p) \<le> s)"
      then obtain ys zs where a: "xs = ys @ (k, c) # zs" "s = sc q c" "s0 < s"
        "\<forall>p\<in>set ys. sc q (snd p) < s" "\<forall>p\<in>set zs. sc q (snd p) \<le> s"
        by blast
      then show ?thesis using r step lt
        by (intro found[of c s k "x # ys" zs]) (simp_all add: x)
    qed
  qed
qed


lemma extractOne_loop_Some_not_None:
  "extractOne_loop sc q cu (Some r) xs \<noteq> None"
proof (induction xs arbitrary: cu r)
  case Nil
  show ?case by simp
next
  case (Cons x xs)
  obtain k1 c1 where x: "x = (k1, c1)" by (cases x)
  obtain c0 s0 k0 where r: "r = (c0, s0, k0)" by (cases r)
  show ?case using Cons.IH by (simp add: x r Let_def)
qed

lemma extractOne_loop_None_iff:
  assumes "0 < cu"
  shows "extractOne_loop sc q cu None xs = None \<longleftrightarrow> (\<forall>p\<in>set xs. sc q (snd p) < cu)"
proof (induction xs)
  case Nil
  show ?case by simp
next
  case (Cons x xs)
  obtain k1 c1 where x: "x = (k1, c1)" by (cases x)
  show ?case
  proof (cases "sc q c1 < cu")
    case True
    with assms Cons.IH show ?thesis by (simp add: x Let_def)
  next
    case False
    then show ?thesis
      using extractOne_loop_Some_not_None[of sc q "sc q c1" "(c1, sc q c1, k1)" xs]
      by (simp add: x Let_def)
  qed
qed

lemma extractOne_loop_from_None:
  assumes "0 < cu" "\<forall>p\<in>set xs. sc q (snd p) \<le> 100"
    and "extractOne_loop sc q cu None xs = Some (c, s, k)"
  shows "\<exists>ys zs. xs = ys @ (k, c) # zs \<and> s = sc q c \<and> cu \<le> s \<and>
           (\<forall>p\<in>set ys. sc q (snd p) < s) \<and> (\<forall>p\<in>set zs. sc q (snd p) \<le> s)"
  using assms(2,3)
proof (induction xs)
  case Nil
  then show ?case by simp
next
  case (Cons x xs)
  obtain k1 c1 where x: "x = (k1, c1)" by (cases x)
  let ?s1 = "sc q c1"
  from Cons.prems have rest: "\<forall>p\<in>set xs. sc q (snd p) \<le> 100" by simp
  show ?case
  proof (cases "?s1 < cu")
    case True
    with assms(1) Cons.prems(2) have "extractOne_loop sc q cu None xs = Some (c, s, k)"
      by (simp add: x Let_def)
    with Cons.IH rest obtain ys zs where a: "xs = ys @ (k, c) # zs" "s = sc q c" "cu \<le> s"
      "\<forall>p\<in>set ys. sc q (snd p) < s" "\<forall>p\<in>set zs. sc q (snd p) \<le> s"
      by blast
    with True have "x # xs = (x # ys) @ (k, c) # zs \<and> s = sc q c \<and> cu \<le> s \<and>
           (\<forall>p\<in>set (x # ys). sc q (snd p) < s) \<and> (\<forall>p\<in>set zs. sc q (snd p) \<le> s)"
      by (simp add: x)
    then show ?thesis by blast
  next
    case False
    then have ge: "cu \<le> ?s1" by simp
    show ?thesis
    proof (cases "?s1 = 100")
      case True
      with False Cons.prems(2) have "(c, s, k) = (c1, ?s1, k1)" by (simp add: x Let_def)
      with ge rest True have "x # xs = [] @ (k, c) # xs \<and> s = sc q c \<and> cu \<le> s \<and>
           (\<forall>p\<in>set []. sc q (snd p) < s) \<and> (\<forall>p\<in>set xs. sc q (snd p) \<le> s)"
        by (simp add: x)
      then show ?thesis by blast
    next
      case ne: False
      with False Cons.prems(2)
      have r: "extractOne_loop sc q ?s1 (Some (c1, ?s1, k1)) xs = Some (c, s, k)"
        by (simp add: x Let_def)
      from ge assms(1) have pos: "0 < ?s1" by linarith
      from extractOne_loop_from_Some[of "?s1" xs sc q c1 k1] pos rest r
      have "((c, s, k) = (c1, ?s1, k1) \<and> (\<forall>p\<in>set xs. sc q (snd p) \<le> ?s1)) \<or>
            (\<exists>ys zs. xs = ys @ (k, c) # zs \<and> s = sc q c \<and> ?s1 < s \<and>
                (\<forall>p\<in>set ys. sc q (snd p) < s) \<and> (\<forall>p\<in>set zs. sc q (snd p) \<le> s))"
        by simp
      then show ?thesis
      proof
        assume "(c, s, k) = (c1, ?s1, k1) \<and> (\<forall>p\<in>set xs. sc q (snd p) \<le> ?s1)"
        with ge have "x # xs = [] @ (k, c) # xs \<and> s = sc q c \<and> cu \<le> s \<and>
           (\<forall>p\<in>set []. sc q (snd p) < s) \<and> (\<forall>p\<in>set xs. sc q (snd p) \<le> s)"
          by (simp add: x)
        then show ?thesis by blast
      next
        assume "\<exists>ys zs. xs = ys @ (k, c) # zs \<and> s = sc q c \<and> ?s1 < s \<and>
                (\<forall>p\<in>set ys. sc q (snd p) < s) \<and> (\<forall>p\<in>set zs. sc q (snd p) \<le> s)"
        then obtain ys zs where a: "xs = ys @ (k, c) # zs" "s = sc q c" "?s1 < s"
          "\<forall>p\<in>set ys. sc q (snd p) < s" "\<forall>p\<in>set zs. sc q (snd p) \<le> s"
          by blast
        with ge have "x # xs = (x # ys) @ (k, c) # zs \<and> s = sc q c \<and> cu \<le> s \<and>
           (\<forall>p\<in>set (x # ys). sc q (snd p) < s) \<and> (\<forall>p\<in>set zs. sc q (snd p) \<le> s)"
          by (simp add: x)
        then show ?thesis by blast
      qed
    qed
  qed
qed

lemma enumerate_split:
  assumes "enumerate 0 choices = ys @ (k, c) # zs"
  shows "k = length ys \<and> k < length choices \<and> c = choices ! k \<and>
         map snd ys = take k choices \<and> map snd zs = drop (Suc k) choices"
proof -
  have "map fst (enumerate 0 choices) = [0..<length choices]"
    and "map snd (enumerate 0 choices) = choices"
    by simp_all
  then have m: "[0..<length choices] = map fst ys @ k # map fst zs"
    and n: "choices = map snd ys @ c # map snd zs"
    by (simp_all add: assms)
  from n have len: "length choices = Suc (length ys + length zs)"
    by (simp add: arg_cong[OF n, of length])
  have "[0..<length choices] ! length ys = k"
    by (subst m) (simp add: nth_append)
  moreover from len have "[0..<length choices] ! length ys = 0 + length ys"
    by (intro nth_upt) simp
  ultimately have k: "k = length ys" by simp
  have c: "choices ! length ys = c"
    by (subst n) (simp add: nth_append)
  have t: "take (length ys) choices = map snd ys"
    by (subst n) simp
  have d: "drop (Suc (length ys)) choices = map snd zs"
    by (subst n) simp
  show ?thesis using k c t d len by simp
qed


lemma ball_enumerate_snd:
  "(\<forall>p\<in>set (enumerate 0 choices). P (snd p)) = (\<forall>c\<in>set choices. P c)"
proof -
  have "snd ` set (enumerate 0 choices) = set choices"
    by (simp flip: set_map)
  then show ?thesis by (metis (no_types, lifting) ball_imageD imageE image_eqI)
qed

lemma extractOne_None_iff:
  "0 < cu \<Longrightarrow> extractOne sc q choices cu = None \<longleftrightarrow> (\<forall>c\<in>set choices. sc q c < cu)"
  using ball_enumerate_snd[of choices "\<lambda>c. sc q c < cu"]
  by (simp only: extractOne_def extractOne_loop_None_iff)

lemma extractOne_Some:
  assumes "0 < cu" "\<forall>c\<in>set choices. sc q c \<le> 100"
    and "extractOne sc q choices cu = Some (m, s, k)"
  shows "k < length choices \<and> m = choices ! k \<and> s = sc q m \<and> cu \<le> s \<and>
         (\<forall>j<length choices. sc q (choices ! j) \<le> s) \<and> (\<forall>j<k. sc q (choices ! j) < s)"
proof -
  from assms(2) have le: "\<forall>p\<in>set (enumerate 0 choices). sc q (snd p) \<le> 100"
    using ball_enumerate_snd[of choices "\<lambda>c. sc q c \<le> 100"] by simp
  from extractOne_loop_from_None[OF assms(1) le assms(3)[unfolded extractOne_def]]
  obtain ys zs where e: "enumerate 0 choices = ys @ (k, m) # zs" and s: "s = sc q m" "cu \<le> s"
    and b: "\<forall>p\<in>set ys. sc q (snd p) < s" and a: "\<forall>p\<in>set zs. sc q (snd p) \<le> s"
    by blast
  from enumerate_split[OF e] have k: "k = length ys" "k < length choices" "m = choices ! k"
    and t: "map snd ys = take k choices" and d: "map snd zs = drop (Suc k) choices"
    by simp_all
  from b have b': "\<forall>c\<in>set (map snd ys). sc q c < s" by simp
  from a have a': "\<forall>c\<in>set (map snd zs). sc q c \<le> s" by simp
  have before: "\<forall>j<k. sc q (choices ! j) < s"
  proof (intro allI impI)
    fix j assume "j < k"
    with k have "choices ! j \<in> set (take k choices)"
      by (metis in_set_conv_nth length_take min.absorb2 less_imp_le nth_take)
    with b' t show "sc q (choices ! j) < s" by simp
  qed
  have "\<forall>j<length choices. sc q (choices ! j) \<le> s"
  proof (intro allI impI)
    fix j assume j: "j < length choices"
    consider "j < k" | "j = k" | "k < j" by linarith
    then show "sc q (choices ! j) \<le> s"
    proof cases
      case 1
      with before show ?thesis by (simp add: less_imp_le)
    next
      case 2
      with s k show ?thesis by simp
    next
      case 3
      then obtain i where i: "j = Suc k + i" by (metis less_iff_Suc_add add_Suc)
      with j have "i < length (drop (Suc k) choices)" by simp
      then have "drop (Suc k) choices ! i \<in> set (drop (Suc k) choices)" by (rule nth_mem)
      moreover have "drop (Suc k) choices ! i = choices ! j"
        using j i by simp
      ultimately show ?thesis using a' d by simp
    qed
  qed
  with before k s show ?thesis by simp
qed

lemma py_getitem_nat: "k < length xs \<Longrightarrow> py_getitem xs (int k) = Inr (xs ! k)"
  by (simp add: py_getitem_def)

lemma keyword_match_ok:
  assumes "k < length (icd_codes a)" "k < length (icd_descs a)"
  shows "keyword_match ext a diag m s k =
     Inr \<lparr>original_diagnosis = diag,
          matched_icd_code = Some (icd_codes a ! k),
          matched_description = Some (icd_descs a ! k),
          confidence_level = (if 95 \<le> s then ''High'' else ''Medium''),
          justification = ''Keyword match with score '' @ format_float ext s
             @ ''/100. Confidence: '' @ (if 95 \<le> s then ''High'' else ''Medium'')
             @ ''. Found similar phrase in ICD description.'',
          alternative_codes = []\<rparr>"
  using assms by (simp add: keyword_match_def bind_exn_def py_getitem_nat Let_def)

lemma process_item_calls_Nil:
  "fst (process_item ext a diag) = [] \<longleftrightarrow>
   extractOne (token_sort_ratio ext) diag (icd_descs a) 85 \<noteq> None"
  by (auto simp: process_item_def split: option.splits sum.splits)

lemma process_item_calls_None:
  "extractOne (token_sort_ratio ext) diag (icd_descs a) 85 = None \<Longrightarrow>
   hd (fst (process_item ext a diag)) = Encode [diag]"
  by (simp add: process_item_def split: sum.splits)

text \<open>
  C1. For a diagnosis whose scores against the catalog descriptions lie in the scorer's
  range (at most 100) and a catalog whose code and description lists are aligned: the
  item makes no call to the embedder exactly when some description scores at least 85;
  otherwise its first call is the encoding of the diagnosis. When a description scores
  at least 85, the entry chosen has the maximal score (the first such entry), and the
  result carries its code and description with confidence \<open>High\<close> if that score is at
  least 95 and \<open>Medium\<close> otherwise.
\<close>

theorem lexical_stage_policy:
  assumes "\<forall>d\<in>set (icd_descs a). token_sort_ratio ext diag d \<le> 100"
    and "length (icd_codes a) = length (icd_descs a)"
  shows "(fst (item_result ext a diag) = [] \<longleftrightarrow>
            (\<exists>d\<in>set (icd_descs a). 85 \<le> token_sort_ratio ext diag d))
     \<and> ((\<forall>d\<in>set (icd_descs a). token_sort_ratio ext diag d < 85) \<longrightarrow>
            hd (fst (item_result ext a diag)) = Encode [diag])
     \<and> ((\<exists>d\<in>set (icd_descs a). 85 \<le> token_sort_ratio ext diag d) \<longrightarrow>
          (\<exists>k<length (icd_descs a).
             (\<forall>j<length (icd_descs a).
                token_sort_ratio ext diag (icd_descs a ! j) \<le> token_sort_ratio ext diag (icd_descs a ! k))
           \<and> (\<forall>j<k. token_sort_ratio ext diag (icd_descs a ! j) < token_sort_ratio ext diag (icd_descs a ! k))
           \<and> 85 \<le> token_sort_ratio ext diag (icd_descs a ! k)
           \<and> snd (item_result ext a diag) =
               \<lparr>original_diagnosis = diag,
                matched_icd_code = Some (icd_codes a ! k),
                matched_description = Some (icd_descs a ! k),
                confidence_level =
                  (if 95 \<le> token_sort_ratio ext diag (icd_descs a ! k) then ''High'' else ''Medium''),
                justification = ''Keyword match with score ''
                  @ format_float ext (token_sort_ratio ext diag (icd_descs a ! k))
                  @ ''/100. Confidence: ''
                  @ (if 95 \<le> token_sort_ratio ext diag (icd_descs a ! k) then ''High'' else ''Medium'')
                  @ ''. Found similar phrase in ICD description.'',
                alternative_codes = []\<rparr>))"
proof -
  let ?sc = "token_sort_ratio ext"
  let ?descs = "icd_descs a"
  have none: "extractOne ?sc diag ?descs 85 = None \<longleftrightarrow> (\<forall>d\<in>set ?descs. ?sc diag d < 85)"
    by (rule extractOne_None_iff) simp
  have fst_eq: "fst (item_result ext a diag) = fst (process_item ext a diag)"
    by (simp add: item_result_def split: prod.splits sum.splits)
  have c1: "fst (item_result ext a diag) = [] \<longleftrightarrow> (\<exists>d\<in>set ?descs. 85 \<le> ?sc diag d)"
    unfolding fst_eq process_item_calls_Nil none by (auto simp: not_less)
  have c2: "(\<forall>d\<in>set ?descs. ?sc diag d < 85) \<longrightarrow> hd (fst (item_result ext a diag)) = Encode [diag]"
    unfolding fst_eq using process_item_calls_None none by blast
  have c3: "(\<exists>d\<in>set ?descs. 85 \<le> ?sc diag d) \<longrightarrow>
          (\<exists>k<length ?descs.
             (\<forall>j<length ?descs. ?sc diag (?descs ! j) \<le> ?sc diag (?descs ! k))
           \<and> (\<forall>j<k. ?sc diag (?descs ! j) < ?sc diag (?descs ! k))
           \<and> 85 \<le> ?sc diag (?descs ! k)
           \<and> snd (item_result ext a diag) =
               \<lparr>original_diagnosis = diag,
                matched_icd_code = Some (icd_codes a ! k),
                matched_description = Some (?descs ! k),
                confidence_level = (if 95 \<le> ?sc diag (?descs ! k) then ''High'' else ''Medium''),
                justification = ''Keyword match with score ''
                  @ format_float ext (?sc diag (?descs ! k))
                  @ ''/100. Confidence: ''
                  @ (if 95 \<le> ?sc diag (?descs ! k) then ''High'' else ''Medium'')
                  @ ''. Found similar phrase in ICD description.'',
                alternative_codes = []\<rparr>)"
  proof
    assume "\<exists>d\<in>set ?descs. 85 \<le> ?sc diag d"
    with none have "extractOne ?sc diag ?descs 85 \<noteq> None" by (auto simp: not_less)
    then obtain m s k where r: "extractOne ?sc diag ?descs 85 = Some (m, s, k)"
      by (cases "extractOne ?sc diag ?descs 85") auto
    have pos: "(0::rat) < 85" by simp
    from extractOne_Some[OF pos assms(1) r]
    have k: "k < length ?descs" and m: "m = ?descs ! k" and s: "s = ?sc diag (?descs ! k)"
      and ge: "85 \<le> s"
      and mx: "\<forall>j<length ?descs. ?sc diag (?descs ! j) \<le> s"
      and first: "\<forall>j<k. ?sc diag (?descs ! j) < s"
      by blast+
    from k assms(2) have kc: "k < length (icd_codes a)" by simp
    have "snd (item_result ext a diag) =
               \<lparr>original_diagnosis = diag,
                matched_icd_code = Some (icd_codes a ! k),
                matched_description = Some (?descs ! k),
                confidence_level = (if 95 \<le> s then ''High'' else ''Medium''),
                justification = ''Keyword match with score '' @ format_float ext s
                  @ ''/100. Confidence: '' @ (if 95 \<le> s then ''High'' else ''Medium'')
                  @ ''. Found similar phrase in ICD description.'',
                alternative_codes = []\<rparr>"
      by (simp only: item_result_def process_item_def r option.case prod.case
            keyword_match_ok[OF kc k] sum.case snd_conv)
    with k ge mx first show "\<exists>k<length ?descs.
             (\<forall>j<length ?descs. ?sc diag (?descs ! j) \<le> ?sc diag (?descs ! k))
           \<and> (\<forall>j<k. ?sc diag (?descs ! j) < ?sc diag (?descs ! k))
           \<and> 85 \<le> ?sc diag (?descs ! k)
           \<and> snd (item_result ext a diag) =
               \<lparr>original_diagnosis = diag,
                matched_icd_code = Some (icd_codes a ! k),
                matched_description = Some (?descs ! k),
                confidence_level = (if 95 \<le> ?sc diag (?descs ! k) then ''High'' else ''Medium''),
                justification = ''Keyword match with score ''
                  @ format_float ext (?sc diag (?descs ! k))
                  @ ''/100. Confidence: ''
                  @ (if 95 \<le> ?sc diag (?descs ! k) then ''High'' else ''Medium'')
                  @ ''. Found similar phrase in ICD description.'',
                alternative_codes = []\<rparr>"
      unfolding s by blast
  qed
  from c1 c2 c3 show ?thesis by (intro conjI)
qed


theorem lexical_stage_policy_witness:
  "length (icd_codes stub_assets) = length (icd_descs stub_assets)
   \<and> fst (item_result stub_externals stub_assets ''cholera'') = []
   \<and> matched_icd_code (snd (item_result stub_externals stub_assets ''cholera'')) = Some ''A00''
   \<and> confidence_level (snd (item_result stub_externals stub_assets ''cholera'')) = ''Medium''"
proof -
  let ?sc = "token_sort_ratio stub_externals ''cholera''"
  have h1: "\<forall>d\<in>set (icd_descs stub_assets). ?sc d \<le> 100"
    by (simp add: stub_assets_def stub_externals_def)
  have h2: "length (icd_codes stub_assets) = length (icd_descs stub_assets)"
    by (simp add: stub_assets_def)
  have acc: "\<exists>d\<in>set (icd_descs stub_assets). 85 \<le> ?sc d"
    by (simp add: stub_assets_def stub_externals_def)
  note T = lexical_stage_policy[OF h1 h2]
  from T acc have calls: "fst (item_result stub_externals stub_assets ''cholera'') = []"
    by blast
  from T acc obtain k where k: "k < length (icd_descs stub_assets)"
    and mx: "\<forall>j<length (icd_descs stub_assets). ?sc (icd_descs stub_assets ! j) \<le> ?sc (icd_descs stub_assets ! k)"
    and r: "snd (item_result stub_externals stub_assets ''cholera'') =
               \<lparr>original_diagnosis = ''cholera'',
                matched_icd_code = Some (icd_codes stub_assets ! k),
                matched_description = Some (icd_descs stub_assets ! k),
                confidence_level = (if 95 \<le> ?sc (icd_descs stub_assets ! k) then ''High'' else ''Medium''),
                justification = ''Keyword match with score ''
                  @ format_float stub_externals (?sc (icd_descs stub_assets ! k))
                  @ ''/100. Confidence: ''
                  @ (if 95 \<le> ?sc (icd_descs stub_assets ! k) then ''High'' else ''Medium'')
                  @ ''. Found similar phrase in ICD description.'',
                alternative_codes = []\<rparr>"
    by blast
  from k have "k = 0 \<or> k = 1 \<or> k = 2" by (auto simp: stub_assets_def)
  moreover have "0 < length (icd_descs stub_assets)" by (simp add: stub_assets_def)
  with mx have "?sc (icd_descs stub_assets ! 0) \<le> ?sc (icd_descs stub_assets ! k)"
    by blast
  ultimately have "k = 0" by (auto simp: stub_assets_def stub_externals_def)
  with r have "matched_icd_code (snd (item_result stub_externals stub_assets ''cholera'')) = Some ''A00''"
    and "confidence_level (snd (item_result stub_externals stub_assets ''cholera'')) = ''Medium''"
    by (simp_all add: stub_assets_def stub_externals_def)
  with h2 calls show ?thesis by blast
qed


section \<open>The semantic stage\<close>

lemma bind_exn_Inr_iff:
  "bind_exn m f = Inr r \<longleftrightarrow> (\<exists>x. m = Inr x \<and> f x = Inr r)"
  by (cases m) (simp_all add: bind_exn_def)

lemma alt_entry_Inr:
  assumes "alt_entry a D I j = Inr t"
  shows "\<exists>i d c ds. np_getitem2 I 0 j = Inr i \<and> np_getitem2 D 0 j = Inr d \<and>
           py_getitem (icd_codes a) i = Inr c \<and> py_getitem (icd_descs a) i = Inr ds \<and>
           t = (c, ds, d)"
  using assms unfolding alt_entry_def bind_exn_Inr_iff by auto

lemma map_exn_three:
  assumes "map_exn f [x0, x1, x2] = Inr ys"
  shows "\<exists>y0 y1 y2. f x0 = Inr y0 \<and> f x1 = Inr y1 \<and> f x2 = Inr y2 \<and> ys = [y0, y1, y2]"
  using assms by (auto simp: bind_exn_Inr_iff)

lemma semantic_match_Inr:
  assumes "semantic_match ext a diag D I = Inr r"
  shows "\<exists>i0 i1 i2 d0 d1 d2 c0 c1 c2 desc0.
           np_getitem2 I 0 0 = Inr i0 \<and> np_getitem2 I 0 1 = Inr i1 \<and> np_getitem2 I 0 2 = Inr i2 \<and>
           np_getitem2 D 0 0 = Inr d0 \<and> np_getitem2 D 0 1 = Inr d1 \<and> np_getitem2 D 0 2 = Inr d2 \<and>
           py_getitem (icd_codes a) i0 = Inr c0 \<and> py_getitem (icd_codes a) i1 = Inr c1 \<and>
           py_getitem (icd_codes a) i2 = Inr c2 \<and> py_getitem (icd_descs a) i0 = Inr desc0 \<and>
           r = \<lparr>original_diagnosis = diag,
                matched_icd_code = Some c0,
                matched_description = Some desc0,
                confidence_level = (if np_float32_0_8 < d0 then ''Low'' else ''Medium''),
                justification = ''Semantic match using Sentence-BERT. Distance: '' @ format_3f ext d0
                  @ ''. Confidence: '' @ (if np_float32_0_8 < d0 then ''Low'' else ''Medium'')
                  @ ''. No direct keyword match found above threshold.'',
                alternative_codes = c1 @ '' (distance: '' @ format_3f ext d1 @ ''), ''
                  @ c2 @ '' (distance: '' @ format_3f ext d2 @ '')''\<rparr>"
proof -
  from assms obtain idx alt code d0 description where
    i0: "np_getitem2 I 0 0 = Inr idx" and
    alt: "map_exn (alt_entry a D I) [0, 1, 2] = Inr alt" and
    c0: "py_getitem (icd_codes a) idx = Inr code" and
    d0: "np_getitem2 D 0 0 = Inr d0" and
    ds: "py_getitem (icd_descs a) idx = Inr description" and
    r: "r = \<lparr>original_diagnosis = diag,
                matched_icd_code = Some code,
                matched_description = Some description,
                confidence_level = (if np_float32_0_8 < d0 then ''Low'' else ''Medium''),
                justification = ''Semantic match using Sentence-BERT. Distance: '' @ format_3f ext d0
                  @ ''. Confidence: '' @ (if np_float32_0_8 < d0 then ''Low'' else ''Medium'')
                  @ ''. No direct keyword match found above threshold.'',
                alternative_codes = fst (alt ! 1) @ '' (distance: '' @ format_3f ext (snd (snd (alt ! 1)))
                  @ ''), '' @ fst (alt ! 2) @ '' (distance: '' @ format_3f ext (snd (snd (alt ! 2)))
                  @ '')''\<rparr>"
    unfolding semantic_match_def bind_exn_Inr_iff Let_def by auto
  from map_exn_three[OF alt] obtain t0 t1 t2 where
    t: "alt_entry a D I 0 = Inr t0" "alt_entry a D I 1 = Inr t1" "alt_entry a D I 2 = Inr t2"
    and alt_eq: "alt = [t0, t1, t2]"
    by blast
  from alt_entry_Inr[OF t(2)] obtain i1 d1 c1 ds1 where
    e1: "np_getitem2 I 0 1 = Inr i1" "np_getitem2 D 0 1 = Inr d1"
      "py_getitem (icd_codes a) i1 = Inr c1" "t1 = (c1, ds1, d1)"
    by blast
  from alt_entry_Inr[OF t(3)] obtain i2 d2 c2 ds2 where
    e2: "np_getitem2 I 0 2 = Inr i2" "np_getitem2 D 0 2 = Inr d2"
      "py_getitem (icd_codes a) i2 = Inr c2" "t2 = (c2, ds2, d2)"
    by blast
  have "r = \<lparr>original_diagnosis = diag,
                matched_icd_code = Some code,
                matched_description = Some description,
                confidence_level = (if np_float32_0_8 < d0 then ''Low'' else ''Medium''),
                justification = ''Semantic match using Sentence-BERT. Distance: '' @ format_3f ext d0
                  @ ''. Confidence: '' @ (if np_float32_0_8 < d0 then ''Low'' else ''Medium'')
                  @ ''. No direct keyword match found above threshold.'',
                alternative_codes = c1 @ '' (distance: '' @ format_3f ext d1 @ ''), ''
                  @ c2 @ '' (distance: '' @ format_3f ext d2 @ '')''\<rparr>"
    unfolding r alt_eq e1(4) e2(4) by simp
  with i0 e1(1,2,3) e2(1,2,3) d0 c0 ds show ?thesis by blast
qed


lemma keyword_match_Inr:
  "keyword_match ext a diag m s k = Inr r \<Longrightarrow>
   alternative_codes r = [] \<and> confidence_level r = (if 95 \<le> s then ''High'' else ''Medium'')"
  unfolding keyword_match_def bind_exn_Inr_iff Let_def by auto

lemma process_item_semantic:
  assumes "\<forall>d\<in>set (icd_descs a). token_sort_ratio ext diag d < 85"
  shows "process_item ext a diag =
     (case embedder a [diag] of
        Inl e \<Rightarrow> ([Encode [diag]], Inl e)
      | Inr emb \<Rightarrow>
          ([Encode [diag], Search emb 3],
           bind_exn (faiss_search ext (index a) emb 3) (\<lambda>(D, I). semantic_match ext a diag D I)))"
proof -
  have "extractOne (token_sort_ratio ext) diag (icd_descs a) 85 = None"
    using assms extractOne_None_iff[of 85 "token_sort_ratio ext" diag "icd_descs a"] by simp
  then show ?thesis by (simp add: process_item_def)
qed

lemma process_item_semantic_Inr:
  assumes "\<forall>d\<in>set (icd_descs a). token_sort_ratio ext diag d < 85"
    and "snd (process_item ext a diag) = Inr r"
  shows "\<exists>emb D I. embedder a [diag] = Inr emb \<and> faiss_search ext (index a) emb 3 = Inr (D, I) \<and>
           semantic_match ext a diag D I = Inr r"
proof -
  note p = process_item_semantic[OF assms(1)]
  from assms(2) obtain emb where emb: "embedder a [diag] = Inr emb"
    unfolding p by (cases "embedder a [diag]") simp_all
  with assms(2) have "bind_exn (faiss_search ext (index a) emb 3)
      (\<lambda>(D, I). semantic_match ext a diag D I) = Inr r"
    unfolding p by simp
  then obtain DI where "faiss_search ext (index a) emb 3 = Inr DI"
    and "(case DI of (D, I) \<Rightarrow> semantic_match ext a diag D I) = Inr r"
    unfolding bind_exn_Inr_iff by blast
  with emb show ?thesis by (cases DI) auto
qed

lemma item_result_snd:
  "snd (item_result ext a diag) =
     (case snd (process_item ext a diag) of Inl e \<Rightarrow> error_result diag e | Inr r \<Rightarrow> r)"
  by (simp add: item_result_def split: prod.splits sum.splits)

lemma np_float32_0_8_above: "8 / 10 < np_float32_0_8 \<and> np_float32_0_8 - 8 / 10 < 1 / 2 ^ 25"
  by (simp add: np_float32_0_8_def)

text \<open>
  C2, as the claim words it: in the semantic stage the confidence would be \<open>Low\<close>
  whenever the nearest distance is greater than 0.8. The distance
  \<open>13421773 / 2^24\<close> is a \<open>float32\<close> value greater than 0.8, and it is the value that the
  threshold itself takes in the single-precision comparison; with the nearest neighbour
  at that distance the item is labelled \<open>Medium\<close>.
\<close>

theorem semantic_stage_threshold_counterexample:
  "(8 / 10 :: rat) < 13421773 / 16777216
   \<and> embedder stub_assets [''heart attack''] = Inr [[12, 0]]
   \<and> faiss_search boundary_externals (index stub_assets) [[12, 0]] 3
       = Inr ([[13421773 / 16777216, 11 / 10, 13 / 10]], [[2, 0, 1]])
   \<and> snd (process_item boundary_externals stub_assets ''heart attack'')
       = Inr (snd (item_result boundary_externals stub_assets ''heart attack''))
   \<and> confidence_level (snd (item_result boundary_externals stub_assets ''heart attack''))
       = ''Medium''"
proof -
  have "(8 / 10 :: rat) < 13421773 / 16777216" by simp
  moreover have "embedder stub_assets [''heart attack''] = Inr [[12, 0]]"
    by (simp add: stub_assets_def stub_encoder_def)
  moreover have "faiss_search boundary_externals (index stub_assets) [[12, 0]] 3
       = Inr ([[13421773 / 16777216, 11 / 10, 13 / 10]], [[2, 0, 1]])"
    by (simp add: boundary_externals_def)
  moreover have "snd (process_item boundary_externals stub_assets ''heart attack'')
       = Inr (snd (item_result boundary_externals stub_assets ''heart attack''))"
    by code_simp
  moreover have "confidence_level (snd (item_result boundary_externals stub_assets ''heart attack''))
       = ''Medium''"
    by code_simp
  ultimately show ?thesis by blast
qed

text \<open>
  C2, amended. For a diagnosis that reaches the semantic stage (no description scores 85
  or more): whenever the item succeeds, its code and description are those of the rank-0
  neighbour \<open>I[0][0]\<close> returned by the search for the diagnosis' embedding, and its
  confidence is \<open>Low\<close> exactly when the nearest distance \<open>D[0][0]\<close> exceeds 0.8 rounded
  to single precision (\<open>13421773 / 2^24\<close>, about \<open>0.80000001\<close>) and \<open>Medium\<close> otherwise.
  So \<open>Low\<close> is given only to distances above 0.8, and every distance of at most 0.8 is
  \<open>Medium\<close>. Whether the item succeeds or fails, its confidence is never \<open>High\<close>.
\<close>

theorem semantic_stage_confidence:
  assumes "\<forall>d\<in>set (icd_descs a). token_sort_ratio ext diag d < 85"
  shows "confidence_level (snd (item_result ext a diag)) \<noteq> ''High''
     \<and> (\<forall>r. snd (process_item ext a diag) = Inr r \<longrightarrow>
          (\<exists>emb D I i0 d0 c0 desc0.
             embedder a [diag] = Inr emb \<and> faiss_search ext (index a) emb 3 = Inr (D, I) \<and>
             np_getitem2 I 0 0 = Inr i0 \<and> np_getitem2 D 0 0 = Inr d0 \<and>
             py_getitem (icd_codes a) i0 = Inr c0 \<and> py_getitem (icd_descs a) i0 = Inr desc0 \<and>
             snd (item_result ext a diag) = r \<and>
             matched_icd_code r = Some c0 \<and> matched_description r = Some desc0 \<and>
             (confidence_level r = ''Low'' \<longleftrightarrow> 13421773 / 16777216 < d0) \<and>
             (confidence_level r = ''Medium'' \<longleftrightarrow> \<not> 13421773 / 16777216 < d0) \<and>
             (confidence_level r = ''Low'' \<longrightarrow> 8 / 10 < d0) \<and>
             (d0 \<le> 8 / 10 \<longrightarrow> confidence_level r = ''Medium'')))"
proof -
  have succ: "\<exists>emb D I i0 d0 c0 desc0.
             embedder a [diag] = Inr emb \<and> faiss_search ext (index a) emb 3 = Inr (D, I) \<and>
             np_getitem2 I 0 0 = Inr i0 \<and> np_getitem2 D 0 0 = Inr d0 \<and>
             py_getitem (icd_codes a) i0 = Inr c0 \<and> py_getitem (icd_descs a) i0 = Inr desc0 \<and>
             snd (item_result ext a diag) = r \<and>
             matched_icd_code r = Some c0 \<and> matched_description r = Some desc0 \<and>
             (confidence_level r = ''Low'' \<longleftrightarrow> 13421773 / 16777216 < d0) \<and>
             (confidence_level r = ''Medium'' \<longleftrightarrow> \<not> 13421773 / 16777216 < d0) \<and>
             (confidence_level r = ''Low'' \<longrightarrow> 8 / 10 < d0) \<and>
             (d0 \<le> 8 / 10 \<longrightarrow> confidence_level r = ''Medium'')"
    if r: "snd (process_item ext a diag) = Inr r" for r
  proof -
    from process_item_semantic_Inr[OF assms r] obtain emb D I where
      e: "embedder a [diag] = Inr emb" "faiss_search ext (index a) emb 3 = Inr (D, I)"
      and m: "semantic_match ext a diag D I = Inr r"
      by blast
    from semantic_match_Inr[OF m] obtain i0 d0 c0 desc0 c1 c2 d1 d2 where
      x: "np_getitem2 I 0 0 = Inr i0" "np_getitem2 D 0 0 = Inr d0"
        "py_getitem (icd_codes a) i0 = Inr c0" "py_getitem (icd_descs a) i0 = Inr desc0"
      and req: "r = \<lparr>original_diagnosis = diag,
                matched_icd_code = Some c0,
                matched_description = Some desc0,
                confidence_level = (if np_float32_0_8 < d0 then ''Low'' else ''Medium''),
                justification = ''Semantic match using Sentence-BERT. Distance: '' @ format_3f ext d0
                  @ ''. Confidence: '' @ (if np_float32_0_8 < d0 then ''Low'' else ''Medium'')
                  @ ''. No direct keyword match found above threshold.'',
                alternative_codes = c1 @ '' (distance: '' @ format_3f ext d1 @ ''), ''
                  @ c2 @ '' (distance: '' @ format_3f ext d2 @ '')''\<rparr>"
      by blast
    have "snd (item_result ext a diag) = r" by (simp add: item_result_snd r)
    moreover have "matched_icd_code r = Some c0" "matched_description r = Some desc0"
      by (simp_all add: req)
    moreover have lo: "confidence_level r = ''Low'' \<longleftrightarrow> 13421773 / 16777216 < d0"
      and me: "confidence_level r = ''Medium'' \<longleftrightarrow> \<not> 13421773 / 16777216 < d0"
      by (simp_all add: req np_float32_0_8_def)
    moreover from lo have "confidence_level r = ''Low'' \<longrightarrow> 8 / 10 < d0"
      by auto
    moreover from me have "d0 \<le> 8 / 10 \<longrightarrow> confidence_level r = ''Medium''"
      by auto
    ultimately show ?thesis using e x by blast
  qed
  have "confidence_level (snd (item_result ext a diag)) \<noteq> ''High''"
  proof (cases "snd (process_item ext a diag)")
    case (Inl e)
    then show ?thesis by (simp add: item_result_snd error_result_def)
  next
    case (Inr r)
    from succ[OF Inr] have "confidence_level r = ''Low'' \<or> confidence_level r = ''Medium''"
      by blast
    then show ?thesis by (auto simp: item_result_snd Inr)
  qed
  with succ show ?thesis by blast
qed

theorem semantic_stage_confidence_witness:
  "snd (process_item stub_externals stub_assets ''heart attack'')
     = Inr (snd (item_result stub_externals stub_assets ''heart attack''))
   \<and> matched_icd_code (snd (item_result stub_externals stub_assets ''heart attack'')) = Some ''I21''
   \<and> confidence_level (snd (item_result stub_externals stub_assets ''heart attack'')) = ''Low''"
proof -
  let ?r = "snd (item_result stub_externals stub_assets ''heart attack'')"
  have h: "\<forall>d\<in>set (icd_descs stub_assets). token_sort_ratio stub_externals ''heart attack'' d < 85"
    by (simp add: stub_assets_def stub_externals_def)
  have p: "snd (process_item stub_externals stub_assets ''heart attack'') = Inr ?r"
    by code_simp
  from semantic_stage_confidence[OF h] p obtain emb D I i0 d0 c0 where
    e: "embedder stub_assets [''heart attack''] = Inr emb"
      "faiss_search stub_externals (index stub_assets) emb 3 = Inr (D, I)"
      "np_getitem2 I 0 0 = Inr i0" "np_getitem2 D 0 0 = Inr d0"
      "py_getitem (icd_codes stub_assets) i0 = Inr c0"
    and r: "matched_icd_code ?r = Some c0"
      "confidence_level ?r = ''Low'' \<longleftrightarrow> 13421773 / 16777216 < d0"
    by blast
  from e(1) have emb: "emb = [[12, 0]]"
    by (simp add: stub_assets_def stub_encoder_def)
  from e(2) have DI: "D = [[9 / 10, 11 / 10, 13 / 10]]" "I = [[2, 0, 1]]"
    by (simp_all add: stub_externals_def emb)
  from e(3,4) have "i0 = 2" "d0 = 9 / 10"
    by (simp_all add: DI np_getitem2_def np_getitem_def bind_exn_def)
  moreover from e(5) \<open>i0 = 2\<close> have "c0 = ''I21''"
    by (simp add: stub_assets_def py_getitem_def)
  ultimately show ?thesis using p r by simp
qed

text \<open>
  C3. For every successful match: if it came from the lexical stage, the alternatives are
  empty; if it came from the semantic stage, the alternatives name exactly rank 1 and
  rank 2 of the \<open>k = 3\<close> search, in that order, each as its code followed by its
  distance (rendered with three decimals), which is ascending order of distance whenever
  the search returns its row sorted.
\<close>

theorem alternative_codes_by_stage:
  assumes "snd (process_item ext a diag) = Inr r"
  shows "((\<exists>d\<in>set (icd_descs a). 85 \<le> token_sort_ratio ext diag d) \<longrightarrow> alternative_codes r = [])
     \<and> ((\<forall>d\<in>set (icd_descs a). token_sort_ratio ext diag d < 85) \<longrightarrow>
          (\<exists>emb D I i1 i2 d1 d2 c1 c2.
             embedder a [diag] = Inr emb \<and> faiss_search ext (index a) emb 3 = Inr (D, I) \<and>
             np_getitem2 I 0 1 = Inr i1 \<and> np_getitem2 I 0 2 = Inr i2 \<and>
             np_getitem2 D 0 1 = Inr d1 \<and> np_getitem2 D 0 2 = Inr d2 \<and>
             py_getitem (icd_codes a) i1 = Inr c1 \<and> py_getitem (icd_codes a) i2 = Inr c2 \<and>
             alternative_codes r = c1 @ '' (distance: '' @ format_3f ext d1 @ ''), ''
                  @ c2 @ '' (distance: '' @ format_3f ext d2 @ '')'' \<and>
             (sorted (D ! 0) \<longrightarrow> d1 \<le> d2)))"
proof (intro conjI impI)
  assume "\<exists>d\<in>set (icd_descs a). 85 \<le> token_sort_ratio ext diag d"
  then have "extractOne (token_sort_ratio ext) diag (icd_descs a) 85 \<noteq> None"
    using extractOne_None_iff[of 85 "token_sort_ratio ext" diag "icd_descs a"] by (auto simp: not_less)
  then obtain m s k where "extractOne (token_sort_ratio ext) diag (icd_descs a) 85 = Some (m, s, k)"
    by (cases "extractOne (token_sort_ratio ext) diag (icd_descs a) 85") auto
  with assms have "keyword_match ext a diag m s k = Inr r" by (simp add: process_item_def)
  then show "alternative_codes r = []" by (simp add: keyword_match_Inr)
next
  assume sem: "\<forall>d\<in>set (icd_descs a). token_sort_ratio ext diag d < 85"
  from process_item_semantic_Inr[OF sem assms] obtain emb D I where
    e: "embedder a [diag] = Inr emb" "faiss_search ext (index a) emb 3 = Inr (D, I)"
    and m: "semantic_match ext a diag D I = Inr r"
    by blast
  from semantic_match_Inr[OF m] obtain i0 d0 c0 desc0 i1 i2 c1 c2 d1 d2 where
    x: "np_getitem2 I 0 1 = Inr i1" "np_getitem2 I 0 2 = Inr i2"
      "np_getitem2 D 0 1 = Inr d1" "np_getitem2 D 0 2 = Inr d2"
      "py_getitem (icd_codes a) i1 = Inr c1" "py_getitem (icd_codes a) i2 = Inr c2"
    and req: "r = \<lparr>original_diagnosis = diag,
                matched_icd_code = Some c0,
                matched_description = Some desc0,
                confidence_level = (if np_float32_0_8 < d0 then ''Low'' else ''Medium''),
                justification = ''Semantic match using Sentence-BERT. Distance: '' @ format_3f ext d0
                  @ ''. Confidence: '' @ (if np_float32_0_8 < d0 then ''Low'' else ''Medium'')
                  @ ''. No direct keyword match found above threshold.'',
                alternative_codes = c1 @ '' (distance: '' @ format_3f ext d1 @ ''), ''
                  @ c2 @ '' (distance: '' @ format_3f ext d2 @ '')''\<rparr>"
    by blast
  have alt: "alternative_codes r = c1 @ '' (distance: '' @ format_3f ext d1 @ ''), ''
                  @ c2 @ '' (distance: '' @ format_3f ext d2 @ '')''"
    by (simp add: req)
  have ord: "sorted (D ! 0) \<longrightarrow> d1 \<le> d2"
  proof
    assume srt: "sorted (D ! 0)"
    from x(3,4) have "1 < length (D ! 0)" "2 < length (D ! 0)" "d1 = D ! 0 ! 1" "d2 = D ! 0 ! 2"
      by (auto simp: np_getitem2_def np_getitem_def bind_exn_def split: if_splits)
    with srt show "d1 \<le> d2" by (simp add: sorted_iff_nth_mono)
  qed
  from e x alt ord show "\<exists>emb D I i1 i2 d1 d2 c1 c2.
             embedder a [diag] = Inr emb \<and> faiss_search ext (index a) emb 3 = Inr (D, I) \<and>
             np_getitem2 I 0 1 = Inr i1 \<and> np_getitem2 I 0 2 = Inr i2 \<and>
             np_getitem2 D 0 1 = Inr d1 \<and> np_getitem2 D 0 2 = Inr d2 \<and>
             py_getitem (icd_codes a) i1 = Inr c1 \<and> py_getitem (icd_codes a) i2 = Inr c2 \<and>
             alternative_codes r = c1 @ '' (distance: '' @ format_3f ext d1 @ ''), ''
                  @ c2 @ '' (distance: '' @ format_3f ext d2 @ '')'' \<and>
             (sorted (D ! 0) \<longrightarrow> d1 \<le> d2)"
    by blast
qed


theorem alternative_codes_by_stage_witness:
  "snd (process_item stub_externals stub_assets ''heart attack'')
     = Inr (snd (item_result stub_externals stub_assets ''heart attack''))
   \<and> alternative_codes (snd (item_result stub_externals stub_assets ''heart attack''))
       = ''A00 (distance: 1.100), A01 (distance: 1.300)''
   \<and> snd (process_item stub_externals stub_assets ''Cholera'')
     = Inr (snd (item_result stub_externals stub_assets ''Cholera''))
   \<and> alternative_codes (snd (item_result stub_externals stub_assets ''Cholera'')) = []"
proof -
  let ?r = "snd (item_result stub_externals stub_assets ''heart attack'')"
  let ?k = "snd (item_result stub_externals stub_assets ''Cholera'')"
  have h: "\<forall>d\<in>set (icd_descs stub_assets). token_sort_ratio stub_externals ''heart attack'' d < 85"
    by (simp add: stub_assets_def stub_externals_def)
  have p: "snd (process_item stub_externals stub_assets ''heart attack'') = Inr ?r"
    by code_simp
  have hk: "\<exists>d\<in>set (icd_descs stub_assets). 85 \<le> token_sort_ratio stub_externals ''Cholera'' d"
    by (simp add: stub_assets_def stub_externals_def)
  have pk: "snd (process_item stub_externals stub_assets ''Cholera'') = Inr ?k"
    by code_simp
  from alternative_codes_by_stage[OF pk] hk have k: "alternative_codes ?k = []"
    by blast
  from alternative_codes_by_stage[OF p] h obtain emb D I i1 i2 d1 d2 c1 c2 where
    e: "embedder stub_assets [''heart attack''] = Inr emb"
      "faiss_search stub_externals (index stub_assets) emb 3 = Inr (D, I)"
      "np_getitem2 I 0 1 = Inr i1" "np_getitem2 I 0 2 = Inr i2"
      "np_getitem2 D 0 1 = Inr d1" "np_getitem2 D 0 2 = Inr d2"
      "py_getitem (icd_codes stub_assets) i1 = Inr c1"
      "py_getitem (icd_codes stub_assets) i2 = Inr c2"
    and r: "alternative_codes ?r = c1 @ '' (distance: '' @ format_3f stub_externals d1 @ ''), ''
                  @ c2 @ '' (distance: '' @ format_3f stub_externals d2 @ '')''"
    by blast
  from e(1) have emb: "emb = [[12, 0]]"
    by (simp add: stub_assets_def stub_encoder_def)
  from e(2) have DI: "D = [[9 / 10, 11 / 10, 13 / 10]]" "I = [[2, 0, 1]]"
    by (simp_all add: stub_externals_def emb)
  from e(3,4,5,6) have v: "i1 = 0" "i2 = 1" "d1 = 11 / 10" "d2 = 13 / 10"
    by (simp_all add: DI np_getitem2_def np_getitem_def bind_exn_def)
  from e(7,8) have c: "c1 = ''A00''" "c2 = ''A01''"
    by (simp_all add: v stub_assets_def py_getitem_def)
  have f: "format_3f stub_externals (11 / 10) = ''1.100''"
    "format_3f stub_externals (13 / 10) = ''1.300''"
    by code_simp+
  from r have "alternative_codes ?r = ''A00 (distance: 1.100), A01 (distance: 1.300)''"
    by (simp add: v c f)
  with p pk k show ?thesis by blast
qed

section \<open>The batch loop and the report\<close>

lemma diagnoses_loop_map:
  "diagnoses_loop ext a acc ds = acc @ map (item_result ext a) ds"
  by (induction ds arbitrary: acc) simp_all

lemma map_diagnoses_loaded:
  "load_assets ext w = Inr a \<Longrightarrow>
   map_diagnoses ext w input = (map (\<lambda>d. snd (item_result ext a d)) (diagnoses_list input), w)"
  by (simp add: map_diagnoses_def map_diagnoses_traced_def diagnoses_loop_map comp_def)

lemma map_diagnoses_not_loaded:
  "load_assets ext w = Inl e \<Longrightarrow>
   map_diagnoses ext w input = ([], print (Line (''Error loading assets: '' @ exn_message e)) w)"
  by (simp add: map_diagnoses_def map_diagnoses_traced_def)

lemma item_result_error:
  "snd (process_item ext a d) = Inl e \<Longrightarrow> snd (item_result ext a d) = error_result d e"
  by (simp add: item_result_snd)

text \<open>
  C4. Once the assets are loaded, if processing the diagnosis at position \<open>i\<close> raises an
  exception \<open>e\<close>, the result at \<open>i\<close> has confidence \<open>Error\<close>, no code, no description
  and the justification \<open>Error processing diagnosis: \<close> followed by \<open>str(e)\<close>; there is
  one result per diagnosis; and the result at any other position is what that diagnosis
  gives when processed on its own, and stays the same whatever diagnosis stands at
  position \<open>i\<close>.
\<close>

theorem per_item_failure_isolated:
  assumes "load_assets ext w = Inr a" and "i < length diagnoses"
    and "snd (process_item ext a (diagnoses ! i)) = Inl e"
  shows "length (fst (map_diagnoses ext w (Many diagnoses))) = length diagnoses
     \<and> fst (map_diagnoses ext w (Many diagnoses)) ! i =
          \<lparr>original_diagnosis = diagnoses ! i,
           matched_icd_code = None,
           matched_description = None,
           confidence_level = ''Error'',
           justification = ''Error processing diagnosis: '' @ exn_message e,
           alternative_codes = []\<rparr>
     \<and> (\<forall>j<length diagnoses. j \<noteq> i \<longrightarrow>
           fst (map_diagnoses ext w (Many [diagnoses ! j]))
             = [fst (map_diagnoses ext w (Many diagnoses)) ! j])
     \<and> (\<forall>d' j. j < length diagnoses \<longrightarrow> j \<noteq> i \<longrightarrow>
           fst (map_diagnoses ext w (Many (diagnoses[i := d']))) ! j
             = fst (map_diagnoses ext w (Many diagnoses)) ! j)"
  using assms
  by (simp add: map_diagnoses_loaded diagnoses_list_def item_result_error error_result_def)

theorem per_item_failure_isolated_witness:
  "load_assets stub_externals stub_world = Inr stub_assets
   \<and> snd (process_item stub_externals stub_assets ([''cholera'', ''unencodable'', ''heart attack''] ! 1))
       = Inl (Exn ''RuntimeError'' ''encode failed'')
   \<and> fst (map_diagnoses stub_externals stub_world (Many [''cholera'', ''unencodable'', ''heart attack''])) ! 1
       = \<lparr>original_diagnosis = ''unencodable'', matched_icd_code = None,
          matched_description = None, confidence_level = ''Error'',
          justification = ''Error processing diagnosis: encode failed'',
          alternative_codes = []\<rparr>
   \<and> map confidence_level
         (fst (map_diagnoses stub_externals stub_world (Many [''cholera'', ''unencodable'', ''heart attack''])))
       = [''Medium'', ''Error'', ''Low'']
   \<and> fst (map_diagnoses stub_externals stub_world (Many [''heart attack'']))
       = [fst (map_diagnoses stub_externals stub_world (Many [''cholera'', ''unencodable'', ''heart attack''])) ! 2]"
proof -
  let ?ds = "[''cholera'', ''unencodable'', ''heart attack'']"
  have l: "load_assets stub_externals stub_world = Inr stub_assets"
    by (simp add: load_assets_def load_file_def read_index_def bind_exn_def stub_world_def
          stub_externals_def stub_assets_def)
  have i: "(1::nat) < length ?ds" by simp
  have p: "snd (process_item stub_externals stub_assets (?ds ! 1))
       = Inl (Exn ''RuntimeError'' ''encode failed'')"
    by code_simp
  note T = per_item_failure_isolated[OF l i p]
  from T have a: "fst (map_diagnoses stub_externals stub_world (Many ?ds)) ! 1
       = \<lparr>original_diagnosis = ''unencodable'', matched_icd_code = None,
          matched_description = None, confidence_level = ''Error'',
          justification = ''Error processing diagnosis: encode failed'',
          alternative_codes = []\<rparr>"
    by simp
  from T have "\<forall>j<length ?ds. j \<noteq> 1 \<longrightarrow>
           fst (map_diagnoses stub_externals stub_world (Many [?ds ! j]))
             = [fst (map_diagnoses stub_externals stub_world (Many ?ds)) ! j]"
    by blast
  moreover have "(2::nat) < length ?ds" "(2::nat) \<noteq> 1" by simp_all
  ultimately have "fst (map_diagnoses stub_externals stub_world (Many [?ds ! 2]))
       = [fst (map_diagnoses stub_externals stub_world (Many ?ds)) ! 2]"
    by blast
  then have b: "fst (map_diagnoses stub_externals stub_world (Many [''heart attack'']))
       = [fst (map_diagnoses stub_externals stub_world (Many ?ds)) ! 2]"
    by simp
  have c: "map confidence_level (fst (map_diagnoses stub_externals stub_world (Many ?ds)))
       = [''Medium'', ''Error'', ''Low'']"
    by code_simp
  from l p a b c show ?thesis by blast
qed

lemma process_item_original:
  assumes "snd (process_item ext a d) = Inr r"
  shows "original_diagnosis r = d"
proof (cases "extractOne (token_sort_ratio ext) d (icd_descs a) 85")
  case None
  show ?thesis
  proof (cases "embedder a [d]")
    case (Inl e)
    with None assms show ?thesis by (simp add: process_item_def)
  next
    case (Inr emb)
    with None assms have "bind_exn (faiss_search ext (index a) emb 3)
        (\<lambda>(D, I). semantic_match ext a d D I) = Inr r"
      by (simp add: process_item_def)
    then obtain D I where "semantic_match ext a d D I = Inr r"
      unfolding bind_exn_Inr_iff by auto
    from semantic_match_Inr[OF this] show ?thesis by auto
  qed
next
  case (Some t)
  then obtain m s k where "extractOne (token_sort_ratio ext) d (icd_descs a) 85 = Some (m, s, k)"
    by (cases t) auto
  with assms have "keyword_match ext a d m s k = Inr r" by (simp add: process_item_def)
  then show ?thesis unfolding keyword_match_def bind_exn_Inr_iff Let_def by auto
qed

lemma item_result_original: "original_diagnosis (snd (item_result ext a d)) = d"
  by (cases "snd (process_item ext a d)")
     (simp_all add: item_result_snd error_result_def process_item_original)

lemma map_diagnoses_order:
  "i < length (fst (map_diagnoses ext w (Many ds))) \<Longrightarrow>
   original_diagnosis (fst (map_diagnoses ext w (Many ds)) ! i) = ds ! i"
  by (cases "load_assets ext w")
     (simp_all add: map_diagnoses_loaded map_diagnoses_not_loaded diagnoses_list_def
        item_result_original)

lemma main_Returned:
  assumes "fst (main ext w argv) = Returned"
  shows "\<exists>w1. 2 \<le> length argv \<and> initialize_system ext w = (Inr True, w1) \<and>
           snd (main ext w argv) =
             print (Json \<lparr>total_processed = length (tl argv),
                          results = fst (map_diagnoses ext w1 (Many (tl argv)))\<rparr>)
               (snd (map_diagnoses ext w1 (Many (tl argv))))"
proof -
  from assms have len: "\<not> length argv < 2"
    by (auto simp: main_def split: if_splits)
  obtain r w1 where i: "initialize_system ext w = (r, w1)" by (cases "initialize_system ext w")
  from assms len i have "r = Inr True"
    by (cases r) (auto simp: main_def split: if_splits bool.splits prod.splits)
  with len i show ?thesis
    by (simp add: main_def split: prod.splits)
qed

lemma last_stdout_print: "last (stdout (print x w)) = x"
  by (simp add: print_def)

text \<open>
  C5. The results of \<open>map_diagnoses\<close> follow the input order: the result at every
  index carries the diagnosis at that index, and with the assets loaded there is one
  result per diagnosis. When \<open>main\<close> returns, the report it prints has
  \<open>total_processed\<close> equal to the number of diagnoses on the command line and its results
  are in their order.
\<close>

theorem batch_report_order:
  "(\<forall>i<length (fst (map_diagnoses ext w (Many diagnoses))).
      original_diagnosis (fst (map_diagnoses ext w (Many diagnoses)) ! i) = diagnoses ! i)
   \<and> (load_assets ext w = Inr a \<longrightarrow>
        length (fst (map_diagnoses ext w (Many diagnoses))) = length diagnoses)
   \<and> (fst (main ext w argv) = Returned \<longrightarrow>
        (\<exists>output. last (stdout (snd (main ext w argv))) = Json output \<and>
           total_processed output = length (tl argv) \<and>
           (\<forall>i<length (results output).
              original_diagnosis (results output ! i) = tl argv ! i)))"
proof (intro conjI impI allI)
  fix i assume "i < length (fst (map_diagnoses ext w (Many diagnoses)))"
  then show "original_diagnosis (fst (map_diagnoses ext w (Many diagnoses)) ! i) = diagnoses ! i"
    by (rule map_diagnoses_order)
next
  assume "load_assets ext w = Inr a"
  then show "length (fst (map_diagnoses ext w (Many diagnoses))) = length diagnoses"
    by (simp add: map_diagnoses_loaded diagnoses_list_def)
next
  assume "fst (main ext w argv) = Returned"
  from main_Returned[OF this] obtain w1 where
    m: "snd (main ext w argv) =
             print (Json \<lparr>total_processed = length (tl argv),
                          results = fst (map_diagnoses ext w1 (Many (tl argv)))\<rparr>)
               (snd (map_diagnoses ext w1 (Many (tl argv))))"
    by blast
  let ?out = "\<lparr>total_processed = length (tl argv),
                results = fst (map_diagnoses ext w1 (Many (tl argv)))\<rparr>"
  have "last (stdout (snd (main ext w argv))) = Json ?out"
    by (simp only: m last_stdout_print)
  moreover have "total_processed ?out = length (tl argv)" by simp
  moreover have "\<forall>i<length (results ?out). original_diagnosis (results ?out ! i) = tl argv ! i"
    by (simp add: map_diagnoses_order)
  ultimately show "\<exists>output. last (stdout (snd (main ext w argv))) = Json output \<and>
           total_processed output = length (tl argv) \<and>
           (\<forall>i<length (results output). original_diagnosis (results output ! i) = tl argv ! i)"
    by blast
qed

theorem batch_report_order_witness:
  "fst (main stub_externals stub_world [''icd10_mapper.py'', ''cholera'', ''heart attack'']) = Returned
   \<and> (\<exists>rep.
         last (stdout (snd (main stub_externals stub_world [''icd10_mapper.py'', ''cholera'', ''heart attack''])))
           = Json rep
       \<and> total_processed rep = 2
       \<and> map original_diagnosis (results rep) = [''cholera'', ''heart attack''])
   \<and> length (fst (map_diagnoses stub_externals stub_world (Many [''cholera'', ''heart attack'']))) = 2"
proof -
  let ?argv = "[''icd10_mapper.py'', ''cholera'', ''heart attack'']"
  have l: "load_assets stub_externals stub_world = Inr stub_assets"
    by (simp add: load_assets_def load_file_def read_index_def bind_exn_def stub_world_def
          stub_externals_def stub_assets_def)
  have r: "fst (main stub_externals stub_world ?argv) = Returned"
    by code_simp
  have n: "(case last (stdout (snd (main stub_externals stub_world ?argv))) of
              Json rep \<Rightarrow> length (results rep) | Line x \<Rightarrow> 0) = 2"
    by code_simp
  note T = batch_report_order[of stub_externals stub_world "[''cholera'', ''heart attack'']" stub_assets ?argv]
  from T r obtain rep where
    a: "last (stdout (snd (main stub_externals stub_world ?argv))) = Json rep"
    and b: "total_processed rep = length (tl ?argv)"
    and c: "\<forall>i<length (results rep). original_diagnosis (results rep ! i) = tl ?argv ! i"
    by blast
  from n a have len: "length (results rep) = 2" by simp
  with c have "original_diagnosis (results rep ! 0) = ''cholera''"
    "original_diagnosis (results rep ! 1) = ''heart attack''"
    by simp_all
  with len have "map original_diagnosis (results rep) = [''cholera'', ''heart attack'']"
    by (simp add: list_eq_iff_nth_eq less_Suc_eq numeral_2_eq_2)
  with a b have "\<exists>rep.
         last (stdout (snd (main stub_externals stub_world ?argv))) = Json rep
       \<and> total_processed rep = 2
       \<and> map original_diagnosis (results rep) = [''cholera'', ''heart attack'']"
    by auto
  moreover from T l
  have "length (fst (map_diagnoses stub_externals stub_world (Many [''cholera'', ''heart attack'']))) = 2"
    by simp
  ultimately show ?thesis using r by blast
qed

section \<open>Failure to load the assets\<close>

lemma load_assets_Inl:
  assumes "isl (load_file ''icd10_kb/icd_chunks_3.json'' (chunks_json w))
         \<or> isl (load_file ''icd10_kb/icd_codes_3.json'' (codes_json w))
         \<or> isl (load_file ''icd10_kb/icd_descriptions_3.json'' (descs_json w))
         \<or> isl (read_index ''icd10_index_3.faiss'' (index_file w))
         \<or> isl (sentence_transformer ext EMBEDDING_MODEL_NAME)"
  shows "\<exists>e. load_assets ext w = Inl e"
  using assms unfolding load_assets_def bind_exn_def
  by (auto simp: isl_def split: sum.splits)

text \<open>
  C10. If loading the chunk list, the code list, the description list, the index or the
  embedding model raises inside \<open>map_diagnoses\<close>, the function returns the empty list
  whatever its input, with no per-item \<open>Error\<close> result. When this happens after a
  successful \<open>initialize_system\<close>, \<open>main\<close> still returns normally (exit status 0) and
  prints a report whose \<open>total_processed\<close> is the number of diagnoses given and whose
  results are empty.
\<close>

theorem asset_load_failure_empty_results:
  assumes "isl (load_file ''icd10_kb/icd_chunks_3.json'' (chunks_json w))
         \<or> isl (load_file ''icd10_kb/icd_codes_3.json'' (codes_json w))
         \<or> isl (load_file ''icd10_kb/icd_descriptions_3.json'' (descs_json w))
         \<or> isl (read_index ''icd10_index_3.faiss'' (index_file w))
         \<or> isl (sentence_transformer ext EMBEDDING_MODEL_NAME)"
  shows "fst (map_diagnoses ext w input) = []
     \<and> (\<forall>w0 argv. 2 \<le> length argv \<longrightarrow> initialize_system ext w0 = (Inr True, w) \<longrightarrow>
           fst (main ext w0 argv) = Returned
         \<and> exit_status (fst (main ext w0 argv)) = 0
         \<and> last (stdout (snd (main ext w0 argv)))
             = Json \<lparr>total_processed = length argv - 1, results = []\<rparr>)"
proof -
  from load_assets_Inl[OF assms] obtain e where e: "load_assets ext w = Inl e" by blast
  then have m: "map_diagnoses ext w input = ([], print (Line (''Error loading assets: '' @ exn_message e)) w)"
    for input
    by (rule map_diagnoses_not_loaded)
  have "fst (main ext w0 argv) = Returned
         \<and> exit_status (fst (main ext w0 argv)) = 0
         \<and> last (stdout (snd (main ext w0 argv)))
             = Json \<lparr>total_processed = length argv - 1, results = []\<rparr>"
    if "2 \<le> length argv" "initialize_system ext w0 = (Inr True, w)" for w0 argv
    using that by (simp add: main_def m exit_status_def last_stdout_print Let_def)
  with m show ?thesis by (simp add: exit_status_def)
qed

theorem asset_load_failure_empty_results_witness:
  "initialize_system stub_externals broken_world
     = (Inr True, snd (initialize_system stub_externals broken_world))
   \<and> isl (load_file ''icd10_kb/icd_chunks_3.json''
            (chunks_json (snd (initialize_system stub_externals broken_world))))
   \<and> fst (main stub_externals broken_world [''icd10_mapper.py'', ''cholera'', ''heart attack'']) = Returned
   \<and> exit_status (fst (main stub_externals broken_world [''icd10_mapper.py'', ''cholera'', ''heart attack''])) = 0
   \<and> last (stdout (snd (main stub_externals broken_world [''icd10_mapper.py'', ''cholera'', ''heart attack''])))
       = Json \<lparr>total_processed = 2, results = []\<rparr>"
proof -
  let ?w = "snd (initialize_system stub_externals broken_world)"
  let ?argv = "[''icd10_mapper.py'', ''cholera'', ''heart attack'']"
  have i: "initialize_system stub_externals broken_world = (Inr True, ?w)"
    by (simp add: initialize_system_def broken_world_def stub_world_def exists_file_def print_def
          stub_assets_def)
  have c: "chunks_json ?w = Missing"
    by (simp add: initialize_system_def broken_world_def stub_world_def exists_file_def print_def
          stub_assets_def)
  then have h: "isl (load_file ''icd10_kb/icd_chunks_3.json'' (chunks_json ?w))"
    by (simp add: load_file_def)
  have n: "2 \<le> length ?argv" by simp
  from asset_load_failure_empty_results[of ?w stub_externals] h n i
  have "fst (main stub_externals broken_world ?argv) = Returned
         \<and> exit_status (fst (main stub_externals broken_world ?argv)) = 0
         \<and> last (stdout (snd (main stub_externals broken_world ?argv)))
             = Json \<lparr>total_processed = length ?argv - 1, results = []\<rparr>"
    by blast
  with i h show ?thesis by (simp add: exit_status_def)
qed

section \<open>Building the index from an empty catalog\<close>

declare show_nat.simps [simp del]

lemma show_nat_0 [simp]: "show_nat 0 = ''0''"
  by code_simp

text \<open>
  C8, as the claim words it: building the index from an empty catalog would fail with an
  \<open>EmptyCatalogError\<close>. The source has no such exception; with an encoder that answers
  an empty batch with an empty array, the failure is the \<open>IndexError\<close> of
  \<open>embeddings[0]\<close>.
\<close>

theorem empty_catalog_counterexample:
  "fst (create_embedding_index stub_externals empty_catalog_world)
     = Inl (Exn ''IndexError'' ''index 0 is out of bounds for axis 0 with size 0'')
   \<and> exn_class (Exn ''IndexError'' ''index 0 is out of bounds for axis 0 with size 0'')
       \<noteq> ''EmptyCatalogError''"
  by (simp add: create_embedding_index_def empty_catalog_world_def stub_externals_def
        stub_encoder_def np_getitem_def print_def Let_def)

text \<open>
  C8, amended: when the chunk list is empty and the encoder returns an empty array for
  it, \<open>create_embedding_index\<close> fails with the \<open>IndexError\<close> raised by \<open>embeddings[0]\<close>
  and writes no index; nothing catches it, so a run of \<open>main\<close> that has to build the
  index ends with that uncaught exception and exit status 1.
\<close>

theorem empty_catalog_index_error:
  assumes "chunks_json w = Stored []"
    and "sentence_transformer ext EMBEDDING_MODEL_NAME = Inr enc"
    and "enc [] = Inr []"
  shows "fst (create_embedding_index ext w)
           = Inl (Exn ''IndexError'' ''index 0 is out of bounds for axis 0 with size 0'')
     \<and> index_file (snd (create_embedding_index ext w)) = index_file w
     \<and> (exists_file (codes_json w) \<and> \<not> exists_file (index_file w) \<longrightarrow>
          (\<forall>argv. 2 \<le> length argv \<longrightarrow>
             fst (main ext w argv)
               = Uncaught (Exn ''IndexError'' ''index 0 is out of bounds for axis 0 with size 0'')
           \<and> exit_status (fst (main ext w argv)) = 1))"
proof -
  let ?e = "Exn ''IndexError'' ''index 0 is out of bounds for axis 0 with size 0''"
  have c: "fst (create_embedding_index ext w') = Inl ?e
      \<and> index_file (snd (create_embedding_index ext w')) = index_file w'"
    if "chunks_json w' = Stored []" for w'
    using that assms(2,3)
    by (simp add: create_embedding_index_def np_getitem_def print_def Let_def)
  have i: "fst (initialize_system ext w) = Inl ?e"
    if "exists_file (codes_json w)" "\<not> exists_file (index_file w)"
  proof -
    let ?w2 = "print (Line ''Creating embedding index...'')
                 (print (Line ''Initializing ICD-10 mapping system...'') w)"
    have "chunks_json ?w2 = Stored []" using assms(1) by (simp add: print_def)
    from c[OF this] have "fst (create_embedding_index ext ?w2) = Inl ?e" by blast
    then obtain w3 where "create_embedding_index ext ?w2 = (Inl ?e, w3)"
      by (cases "create_embedding_index ext ?w2") simp
    with that show ?thesis
      by (simp add: initialize_system_def Let_def print_def)
  qed
  have "fst (main ext w argv) = Uncaught ?e \<and> exit_status (fst (main ext w argv)) = 1"
    if "exists_file (codes_json w)" "\<not> exists_file (index_file w)" "2 \<le> length argv" for argv
  proof -
    from i[OF that(1,2)] obtain w1 where "initialize_system ext w = (Inl ?e, w1)"
      by (cases "initialize_system ext w") simp
    with that(3) show ?thesis by (simp add: main_def exit_status_def)
  qed
  with c[OF assms(1)] show ?thesis by blast
qed

theorem empty_catalog_index_error_witness:
  "chunks_json empty_catalog_world = Stored []
   \<and> sentence_transformer stub_externals EMBEDDING_MODEL_NAME = Inr stub_encoder
   \<and> stub_encoder [] = Inr []
   \<and> fst (create_embedding_index stub_externals empty_catalog_world)
       = Inl (Exn ''IndexError'' ''index 0 is out of bounds for axis 0 with size 0'')
   \<and> fst (main stub_externals empty_catalog_world [''icd10_mapper.py'', ''cholera''])
       = Uncaught (Exn ''IndexError'' ''index 0 is out of bounds for axis 0 with size 0'')"
proof -
  have h1: "chunks_json empty_catalog_world = Stored []"
    by (simp add: empty_catalog_world_def)
  have h2: "sentence_transformer stub_externals EMBEDDING_MODEL_NAME = Inr stub_encoder"
    by (simp add: stub_externals_def)
  have h3: "stub_encoder [] = Inr []"
    by (simp add: stub_encoder_def)
  have h4: "exists_file (codes_json empty_catalog_world)
      \<and> \<not> exists_file (index_file empty_catalog_world)"
    by (simp add: empty_catalog_world_def exists_file_def)
  have h5: "2 \<le> length [''icd10_mapper.py'', ''cholera'']" by simp
  note T = empty_catalog_index_error[OF h1 h2 h3]
  from T have "fst (create_embedding_index stub_externals empty_catalog_world)
       = Inl (Exn ''IndexError'' ''index 0 is out of bounds for axis 0 with size 0'')"
    by blast
  moreover from T h4 h5
  have "fst (main stub_externals empty_catalog_world [''icd10_mapper.py'', ''cholera''])
       = Uncaught (Exn ''IndexError'' ''index 0 is out of bounds for axis 0 with size 0'')"
    by blast
  ultimately show ?thesis using h1 h2 h3 by blast
qed

section \<open>A single diagnosis string\<close>

text \<open>
  C9, as the claim words it: a single diagnosis string would be turned into a
  one-element batch by the caller, not by the batch-matching component. Handed the bare
  string \<open>cholera\<close>, \<open>map_diagnoses\<close> itself yields the one result for that diagnosis,
  the same as for the one-element list, and not the seven results of iterating over
  the characters of the string.
\<close>

theorem single_diagnosis_counterexample:
  "map original_diagnosis (fst (map_diagnoses stub_externals stub_world (Single ''cholera'')))
     = [''cholera'']
   \<and> map_diagnoses stub_externals stub_world (Single ''cholera'')
       = map_diagnoses stub_externals stub_world (Many [''cholera''])
   \<and> map original_diagnosis
        (fst (map_diagnoses stub_externals stub_world
               (Many [''c'', ''h'', ''o'', ''l'', ''e'', ''r'', ''a''])))
       \<noteq> [''cholera'']"
proof -
  have l: "load_assets stub_externals stub_world = Inr stub_assets"
    by (simp add: load_assets_def load_file_def read_index_def bind_exn_def stub_world_def
          stub_externals_def stub_assets_def)
  show ?thesis
    by (simp add: map_diagnoses_loaded[OF l] diagnoses_list_def item_result_original)
qed

text \<open>
  C9, amended: a single diagnosis string passed to \<open>map_diagnoses\<close> is converted into
  a one-element batch by \<open>map_diagnoses\<close> itself: the function behaves on a string
  exactly as on the list holding that string, and with the assets loaded it returns the
  one result of that diagnosis. Its caller \<open>main\<close> passes the diagnoses of the command
  line as a list, the one-element list when a single diagnosis is given.
\<close>

theorem single_diagnosis_wrapped_by_map_diagnoses:
  "diagnoses_list (Single d) = [d]
   \<and> map_diagnoses ext w (Single d) = map_diagnoses ext w (Many [d])
   \<and> map_diagnoses_traced ext w (Single d) = map_diagnoses_traced ext w (Many [d])
   \<and> (load_assets ext w = Inr a \<longrightarrow>
        fst (map_diagnoses ext w (Single d)) = [snd (item_result ext a d)])
   \<and> (fst (main ext w [prog, d]) = Returned \<longrightarrow>
        (\<exists>w1. initialize_system ext w = (Inr True, w1) \<and>
           last (stdout (snd (main ext w [prog, d])))
             = Json \<lparr>total_processed = 1,
                      results = fst (map_diagnoses ext w1 (Many [d]))\<rparr>))"
proof -
  have eq: "diagnoses_list (Single d) = diagnoses_list (Many [d])"
    by (simp add: diagnoses_list_def)
  have wrap: "diagnoses_list (Single d) = [d]
     \<and> map_diagnoses ext w (Single d) = map_diagnoses ext w (Many [d])
     \<and> map_diagnoses_traced ext w (Single d) = map_diagnoses_traced ext w (Many [d])"
    unfolding map_diagnoses_def map_diagnoses_traced_def eq
    by (simp add: diagnoses_list_def)
  have one: "load_assets ext w = Inr a \<longrightarrow>
        fst (map_diagnoses ext w (Single d)) = [snd (item_result ext a d)]"
    by (simp add: map_diagnoses_loaded diagnoses_list_def)
  have caller: "fst (main ext w [prog, d]) = Returned \<longrightarrow>
        (\<exists>w1. initialize_system ext w = (Inr True, w1) \<and>
           last (stdout (snd (main ext w [prog, d])))
             = Json \<lparr>total_processed = 1,
                      results = fst (map_diagnoses ext w1 (Many [d]))\<rparr>)"
  proof
    assume "fst (main ext w [prog, d]) = Returned"
    from main_Returned[OF this] obtain w1 where
      i: "initialize_system ext w = (Inr True, w1)" and
      m: "snd (main ext w [prog, d]) =
             print (Json \<lparr>total_processed = length (tl [prog, d]),
                          results = fst (map_diagnoses ext w1 (Many (tl [prog, d])))\<rparr>)
               (snd (map_diagnoses ext w1 (Many (tl [prog, d]))))"
      by blast
    have "last (stdout (snd (main ext w [prog, d])))
             = Json \<lparr>total_processed = 1,
                      results = fst (map_diagnoses ext w1 (Many [d]))\<rparr>"
      unfolding m last_stdout_print by simp
    with i show "\<exists>w1. initialize_system ext w = (Inr True, w1) \<and>
           last (stdout (snd (main ext w [prog, d])))
             = Json \<lparr>total_processed = 1,
                      results = fst (map_diagnoses ext w1 (Many [d]))\<rparr>"
      by blast
  qed
  from wrap one caller show ?thesis by blast
qed

theorem single_diagnosis_wrapped_by_map_diagnoses_witness:
  "load_assets stub_externals stub_world = Inr stub_assets
   \<and> fst (map_diagnoses stub_externals stub_world (Single ''cholera''))
       = [\<lparr>original_diagnosis = ''cholera'', matched_icd_code = Some ''A00'',
           matched_description = Some ''Cholera'', confidence_level = ''Medium'',
           justification = ''Keyword match with score 90.0/100. Confidence: Medium. Found similar phrase in ICD description.'',
           alternative_codes = []\<rparr>]
   \<and> fst (main stub_externals stub_world [''icd10_mapper.py'', ''cholera'']) = Returned
   \<and> last (stdout (snd (main stub_externals stub_world [''icd10_mapper.py'', ''cholera''])))
       = Json \<lparr>total_processed = 1,
                results =
                  [\<lparr>original_diagnosis = ''cholera'', matched_icd_code = Some ''A00'',
                    matched_description = Some ''Cholera'', confidence_level = ''Medium'',
                    justification = ''Keyword match with score 90.0/100. Confidence: Medium. Found similar phrase in ICD description.'',
                    alternative_codes = []\<rparr>]\<rparr>"
proof -
  let ?argv = "[''icd10_mapper.py'', ''cholera'']"
  let ?res = "\<lparr>original_diagnosis = ''cholera'', matched_icd_code = Some ''A00'',
           matched_description = Some ''Cholera'', confidence_level = ''Medium'',
           justification = ''Keyword match with score 90.0/100. Confidence: Medium. Found similar phrase in ICD description.'',
           alternative_codes = []\<rparr>"
  note T = single_diagnosis_wrapped_by_map_diagnoses
    [of "''cholera''" stub_externals stub_world stub_assets "''icd10_mapper.py''"]
  have l: "load_assets stub_externals stub_world = Inr stub_assets"
    by (simp add: load_assets_def load_file_def read_index_def bind_exn_def stub_world_def
          stub_externals_def stub_assets_def)
  have ir: "snd (item_result stub_externals stub_assets ''cholera'') = ?res"
    by code_simp
  from T l have "fst (map_diagnoses stub_externals stub_world (Single ''cholera''))
       = [snd (item_result stub_externals stub_assets ''cholera'')]"
    by blast
  then have single: "fst (map_diagnoses stub_externals stub_world (Single ''cholera'')) = [?res]"
    by (simp only: ir)
  have r: "fst (main stub_externals stub_world ?argv) = Returned"
    by code_simp
  from T r obtain w1 where
    i: "initialize_system stub_externals stub_world = (Inr True, w1)" and
    o: "last (stdout (snd (main stub_externals stub_world ?argv)))
         = Json \<lparr>total_processed = 1,
                  results = fst (map_diagnoses stub_externals w1 (Many [''cholera'']))\<rparr>"
    by blast
  from i have "load_assets stub_externals w1 = Inr stub_assets"
    by (auto simp: initialize_system_def exists_file_def print_def load_assets_def
          load_file_def read_index_def bind_exn_def stub_world_def stub_externals_def
          stub_assets_def)
  then have "fst (map_diagnoses stub_externals w1 (Many [''cholera''])) = [?res]"
    by (simp add: map_diagnoses_loaded diagnoses_list_def ir)
  with o have "last (stdout (snd (main stub_externals stub_world ?argv)))
       = Json \<lparr>total_processed = 1, results = [?res]\<rparr>"
    by simp
  with l single r show ?thesis by blast
qed

end
